theory Spec2Isabelle
  imports Complex_Main "HOL-Library.Sublist" "HOL-Library.AList"
    "HOL-Library.List_Lexorder" "HOL-Library.Char_ord" "HOL-Library.Word"
begin

section \<open>LFS storage package: shallow embedding\<close>

text \<open>
  The embedding follows the flat storage package (the Go source that begins with
  \<^verbatim>\<open>package storage\<close> and declares \<^verbatim>\<open>MD5Cache\<close>, \<^verbatim>\<open>SaveFile\<close>, \<^verbatim>\<open>SaveFileChunk\<close>,
  \<^verbatim>\<open>mergeFileChunks\<close>, \<^verbatim>\<open>DownloadFile\<close>, \<^verbatim>\<open>DownloadFileChunk\<close>, \<^verbatim>\<open>parseRangeHeader\<close>
  and \<^verbatim>\<open>ListFiles\<close>).

  Conventions.
  \<^item> A file path is the list of its components; \<^verbatim>\<open>filepath.Join(p, name)\<close> appends one
    component. This is \<^verbatim>\<open>filepath.Join\<close> for names that are single clean components
    (non-empty, no separator, neither \<^verbatim>\<open>.\<close> nor \<^verbatim>\<open>..\<close>).
  \<^item> Go's \<^verbatim>\<open>int\<close> and \<^verbatim>\<open>int64\<close> are 64-bit; they are HOL integers and the wrap-around
    is written out with \<open>i64\<close> where the source computes.
  \<^item> \<^verbatim>\<open>time.Time\<close> values are only compared with \<^verbatim>\<open>!=\<close>; they are integers here.
  \<^item> File contents are lists of bytes.
  \<^item> A Go function that returns \<^verbatim>\<open>error\<close> returns \<open>error option\<close> next to the
    state it leaves behind, since the source never rolls back.
\<close>

type_synonym byte = "8 word"
type_synonym path = "string list"
type_synonym Time = int

definition i64 :: "int \<Rightarrow> int" where
  "i64 x = (x + 2 ^ 63) mod 2 ^ 64 - 2 ^ 63"

subsection \<open>The MD5 cache\<close>

record MD5CacheEntry =
  MD5 :: string
  ModTime :: Time
  Size :: int
  Calculated :: bool
  Calculating :: bool
  Progress :: real
  Error :: string

type_synonym MD5Cache = "path \<rightharpoonup> MD5CacheEntry"

definition GetMD5FromCache :: "MD5Cache \<Rightarrow> path \<Rightarrow> Time \<Rightarrow> int \<Rightarrow> string \<times> bool" where
  "GetMD5FromCache mc filePath modTime sz =
     (case mc filePath of
        None \<Rightarrow> ('''', False)
      | Some entry \<Rightarrow>
          if ModTime entry \<noteq> modTime \<or> Size entry \<noteq> sz then ('''', False)
          else (MD5 entry, Calculated entry))"

definition SetMD5ToCache :: "MD5Cache \<Rightarrow> path \<Rightarrow> string \<Rightarrow> Time \<Rightarrow> int \<Rightarrow> MD5Cache" where
  "SetMD5ToCache mc filePath md5 modTime sz =
     mc(filePath \<mapsto> \<lparr>MD5 = md5, ModTime = modTime, Size = sz, Calculated = True,
                      Calculating = False, Progress = 0, Error = ''''\<rparr>)"

definition SetCalculating :: "MD5Cache \<Rightarrow> path \<Rightarrow> Time \<Rightarrow> int \<Rightarrow> MD5Cache" where
  "SetCalculating mc filePath modTime sz =
     mc(filePath \<mapsto> \<lparr>MD5 = '''', ModTime = modTime, Size = sz, Calculated = False,
                      Calculating = True, Progress = 0, Error = ''''\<rparr>)"

definition UpdateProgress :: "MD5Cache \<Rightarrow> path \<Rightarrow> real \<Rightarrow> MD5Cache" where
  "UpdateProgress mc filePath progress =
     (case mc filePath of
        None \<Rightarrow> mc
      | Some entry \<Rightarrow> mc(filePath \<mapsto> entry\<lparr>Progress := progress\<rparr>))"

definition SetError :: "MD5Cache \<Rightarrow> path \<Rightarrow> string \<Rightarrow> MD5Cache" where
  "SetError mc filePath err =
     (case mc filePath of
        None \<Rightarrow> mc
      | Some entry \<Rightarrow> mc(filePath \<mapsto> entry\<lparr>Calculating := False, Error := err\<rparr>))"

definition GetProgress :: "MD5Cache \<Rightarrow> path \<Rightarrow> real \<times> bool \<times> string" where
  "GetProgress mc filePath =
     (case mc filePath of
        None \<Rightarrow> (0, False, '''')
      | Some entry \<Rightarrow> (Progress entry, Calculating entry, Error entry))"

text \<open>The state predicate of the cache: no entry is both finished and in flight.\<close>

definition cache_exclusive :: "MD5Cache \<Rightarrow> bool" where
  "cache_exclusive mc \<longleftrightarrow> (\<forall>p e. mc p = Some e \<longrightarrow> \<not> (Calculated e \<and> Calculating e))"

subsection \<open>Errors\<close>

text \<open>
  One constructor for each error the package returns or the Go runtime raises in the
  modelled functions. \<open>ChunkNotFound i\<close> is
  \<^verbatim>\<open>fmt.Errorf("%s: chunk %d", ErrChunkNotFound, i)\<close>, \<open>IntegrityFailed e g\<close> is
  \<^verbatim>\<open>fmt.Errorf("file integrity check failed: expected %s, got %s", e, g)\<close>,
  \<open>RangeEndRequired\<close> is \<^verbatim>\<open>fmt.Errorf("range end position required")\<close>; \<open>Panic\<close> is an
  index out of range; \<open>SyntaxErr\<close> and \<open>RangeErr\<close> are \<^verbatim>\<open>strconv.ErrSyntax\<close> and
  \<^verbatim>\<open>strconv.ErrRange\<close>; the others are the operating system's and the request context's.
\<close>

datatype error =
    NotExist
  | IsADirectory
  | NotADirectory
  | InvalidArgument
  | SyntaxErr
  | RangeErr
  | RangeEndRequired
  | ChunkNotFound int
  | IntegrityFailed string string
  | Canceled
  | Panic
  | BadPattern
  | Exist
  | IOError string

subsection \<open>Strings and decimal numbers\<close>

text \<open>
  \<^verbatim>\<open>strings.Split\<close> with a one-byte separator, \<^verbatim>\<open>strings.TrimPrefix\<close>, and the decimal
  conversions of \<^verbatim>\<open>strconv\<close> and \<^verbatim>\<open>fmt\<close>. \<open>ParseUint\<close> and \<open>ParseInt\<close> follow the library's
  loop for base 10 and 64 bits: a byte that is not a digit is a syntax error where the
  scan meets it, and a value that leaves the range is a range error where it does.
  \<^verbatim>\<open>strconv.Atoi\<close> returns what \<^verbatim>\<open>ParseInt(s, 10, 0)\<close> returns on a 64-bit platform.
\<close>

fun strings_Split :: "string \<Rightarrow> char \<Rightarrow> string list" where
  "strings_Split [] sep = [[]]"
| "strings_Split (c # cs) sep =
     (if c = sep then [] # strings_Split cs sep
      else (case strings_Split cs sep of
              [] \<Rightarrow> [[c]]
            | p # ps \<Rightarrow> (c # p) # ps))"

definition strings_TrimPrefix :: "string \<Rightarrow> string \<Rightarrow> string" where
  "strings_TrimPrefix s pre = (if prefix pre s then drop (length pre) s else s)"

definition digit_of :: "char \<Rightarrow> nat option" where
  "digit_of c =
     (let k = of_char c :: nat in if 48 \<le> k \<and> k \<le> 57 then Some (k - 48) else None)"

definition digit_char :: "nat \<Rightarrow> char" where
  "digit_char d = ''0123456789'' ! d"

definition maxUint64 :: nat where
  "maxUint64 = 2 ^ 64 - 1"

fun ParseUint_loop :: "nat \<Rightarrow> string \<Rightarrow> error + nat" where
  "ParseUint_loop n [] = Inr n"
| "ParseUint_loop n (c # cs) =
     (case digit_of c of
        None \<Rightarrow> Inl SyntaxErr
      | Some d \<Rightarrow>
          if n \<ge> maxUint64 div 10 + 1 then Inl RangeErr
          else if n * 10 + d > maxUint64 then Inl RangeErr
          else ParseUint_loop (n * 10 + d) cs)"

definition ParseUint :: "string \<Rightarrow> error + nat" where
  "ParseUint s = (if s = [] then Inl SyntaxErr else ParseUint_loop 0 s)"

definition ParseInt :: "string \<Rightarrow> error + int" where
  "ParseInt s =
     (if s = [] then Inl SyntaxErr
      else
        let neg = (hd s = CHR ''-'');
            s' = (if hd s = CHR ''+'' \<or> hd s = CHR ''-'' then tl s else s)
        in case ParseUint s' of
             Inl err \<Rightarrow> Inl err
           | Inr un \<Rightarrow>
               if \<not> neg \<and> un \<ge> 2 ^ 63 then Inl RangeErr
               else if neg \<and> un > 2 ^ 63 then Inl RangeErr
               else Inr (if neg then - int un else int un))"

definition Atoi :: "string \<Rightarrow> error + int" where
  "Atoi s = ParseInt s"

function show_nat :: "nat \<Rightarrow> string" where
  "show_nat n = (if n < 10 then [digit_char n] else show_nat (n div 10) @ [digit_char (n mod 10)])"
  by pat_completeness auto
termination
  by (relation "measure id") auto

declare show_nat.simps [simp del]

text \<open>\<^verbatim>\<open>%d\<close>, \<^verbatim>\<open>strconv.Itoa\<close> and \<^verbatim>\<open>strconv.FormatInt(_, 10)\<close>.\<close>

definition show_int :: "int \<Rightarrow> string" where
  "show_int i = (if i < 0 then CHR ''-'' # show_nat (nat (- i)) else show_nat (nat i))"

subsection \<open>ListFiles\<close>

text \<open>
  \<^verbatim>\<open>os.MkdirAll\<close>, \<^verbatim>\<open>os.ReadDir\<close> and \<^verbatim>\<open>entry.Info()\<close> are the environment's answers and
  are arguments of the model. The goroutine that \<open>ListFiles\<close> starts is recorded as a job
  (the arguments of the closure); the listing itself never computes a checksum.
\<close>

record FileInfo =
  fi_Name :: string
  fi_Size :: int
  fi_ModTime :: Time

record DirEntry =
  IsDir :: bool
  Info :: "error + FileInfo"

record FileMetadata =
  fm_Name :: string
  fm_Size :: int
  fm_ModTime :: Time
  fm_MD5 :: string

type_synonym job = "path \<times> Time \<times> int"

text \<open>
  Every call on \<^verbatim>\<open>md5Cache\<close> takes the mutex and releases it before it returns
  (\<open>GetMD5FromCache\<close> and \<open>GetProgress\<close> the read lock, \<open>SetCalculating\<close> the write lock), and
  \<open>ListFiles\<close> holds no lock between two calls. A listing is therefore a sequence of atomic
  steps, one for each call on the cache, and the steps of listings that run at the same
  time interleave. A listing is at one of four places:
  \<^item> \<open>AtLoop entries files\<close>: at the head of the loop, with the entries still to visit
    and the files collected so far;
  \<^item> \<open>AfterGetMD5 info entries files\<close>: \<open>GetMD5FromCache\<close> has answered "not calculated"
    for the file \<open>info\<close>, and \<open>GetProgress\<close> is the next call;
  \<^item> \<open>AfterGetProgress info entries files\<close>: \<open>GetProgress\<close> has answered "not
    calculating", and \<open>SetCalculating\<close> followed by the \<^verbatim>\<open>go\<close> statement is next;
  \<^item> \<open>Returned r\<close>: the function has returned \<open>r\<close>.
  A step runs the listing from where it is through its next call on the cache, up to the
  call after that. The state the listings share is the cache and the jobs started.
\<close>

datatype listing =
    AtLoop "DirEntry list" "FileMetadata list"
  | AfterGetMD5 FileInfo "DirEntry list" "FileMetadata list"
  | AfterGetProgress FileInfo "DirEntry list" "FileMetadata list"
  | Returned "error + FileMetadata list"

definition FileMetadata_of :: "FileInfo \<Rightarrow> string \<Rightarrow> FileMetadata" where
  "FileMetadata_of info md5sum =
     \<lparr>fm_Name = fi_Name info, fm_Size = fi_Size info, fm_ModTime = fi_ModTime info,
      fm_MD5 = md5sum\<rparr>"

definition ListFiles_start :: "error option \<Rightarrow> (error + DirEntry list) \<Rightarrow> listing" where
  "ListFiles_start mkdirAll readDir =
     (case mkdirAll of
        Some err \<Rightarrow> Returned (Inl err)
      | None \<Rightarrow>
          (case readDir of
             Inl err \<Rightarrow> Returned (Inl err)
           | Inr entries \<Rightarrow> AtLoop entries []))"

fun ListFiles_step ::
  "path \<Rightarrow> MD5Cache \<times> job list \<Rightarrow> listing \<Rightarrow> (MD5Cache \<times> job list) \<times> listing" where
  "ListFiles_step storagePath (mc, jobs) (AtLoop [] files) = ((mc, jobs), Returned (Inr files))"
| "ListFiles_step storagePath (mc, jobs) (AtLoop (entry # entries) files) =
     (if IsDir entry then ((mc, jobs), AtLoop entries files)
      else
        case Info entry of
          Inl err \<Rightarrow> ((mc, jobs), Returned (Inl err))
        | Inr info \<Rightarrow>
            let filePath = storagePath @ [fi_Name info];
                (md5sum, calculated) =
                   GetMD5FromCache mc filePath (fi_ModTime info) (fi_Size info)
            in if \<not> calculated then ((mc, jobs), AfterGetMD5 info entries files)
               else ((mc, jobs), AtLoop entries (files @ [FileMetadata_of info md5sum])))"
| "ListFiles_step storagePath (mc, jobs) (AfterGetMD5 info entries files) =
     (let filePath = storagePath @ [fi_Name info];
          (_, calculating, _) = GetProgress mc filePath
      in if \<not> calculating then ((mc, jobs), AfterGetProgress info entries files)
         else ((mc, jobs), AtLoop entries (files @ [FileMetadata_of info ''''])))"
| "ListFiles_step storagePath (mc, jobs) (AfterGetProgress info entries files) =
     (let filePath = storagePath @ [fi_Name info]
      in ((SetCalculating mc filePath (fi_ModTime info) (fi_Size info),
           jobs @ [(filePath, fi_ModTime info, fi_Size info)]),
          AtLoop entries (files @ [FileMetadata_of info ''''])))"
| "ListFiles_step storagePath (mc, jobs) (Returned r) = ((mc, jobs), Returned r)"

text \<open>
  A schedule names, step by step, the listing that moves next. \<open>[0, 0, 0, \<dots>]\<close> is one
  listing running alone.
\<close>

fun run_listings ::
  "path \<Rightarrow> nat list \<Rightarrow> (MD5Cache \<times> job list) \<times> listing list
     \<Rightarrow> (MD5Cache \<times> job list) \<times> listing list" where
  "run_listings storagePath [] st = st"
| "run_listings storagePath (i # schedule) (shared, ls) =
     (if i < length ls then
        (case ListFiles_step storagePath shared (ls ! i) of
           (shared', l') \<Rightarrow> run_listings storagePath schedule (shared', ls[i := l']))
      else run_listings storagePath schedule (shared, ls))"

subsection \<open>The file system\<close>

text \<open>
  The disk is an association list from paths to nodes; \<open>map_of\<close> reads it. The root
  \<open>[]\<close> always is a directory. The operations are the \<^verbatim>\<open>os\<close> calls the package makes, on a
  disk that is a tree (the parent of a node is a directory) and never fills: a call fails
  for the path it is given (missing, a directory, not a directory), not for lack of space
  or permission. A write through a handle opened by \<^verbatim>\<open>os.Create\<close> continues where the last
  one ended, and one through a handle opened with \<^verbatim>\<open>O_APPEND\<close> goes to the end of the file
  wherever \<^verbatim>\<open>Seek\<close> has moved the offset (POSIX); both are \<open>append_file\<close>.
\<close>

datatype node = File "byte list" | Dir

type_synonym fsys = "(path \<times> node) list"

definition lookup :: "fsys \<Rightarrow> path \<Rightarrow> node option" where
  "lookup fs p = (if p = [] then Some Dir else map_of fs p)"

definition file_at :: "fsys \<Rightarrow> path \<Rightarrow> byte list option" where
  "file_at fs p = (case lookup fs p of Some (File d) \<Rightarrow> Some d | _ \<Rightarrow> None)"

text \<open>The size a directory reports to \<^verbatim>\<open>os.Stat\<close> depends on the file system; 4096 here.\<close>

definition dir_size :: int where
  "dir_size = 4096"

definition Stat :: "fsys \<Rightarrow> path \<Rightarrow> error + (bool \<times> int)" where
  "Stat fs p =
     (case lookup fs p of
        None \<Rightarrow> Inl NotExist
      | Some Dir \<Rightarrow> Inr (True, dir_size)
      | Some (File d) \<Rightarrow> Inr (False, int (length d)))"

text \<open>Why a path cannot be created or opened in its parent, if it cannot.\<close>

definition parent_error :: "fsys \<Rightarrow> path \<Rightarrow> error option" where
  "parent_error fs p =
     (case lookup fs (butlast p) of
        None \<Rightarrow> Some NotExist
      | Some (File _) \<Rightarrow> Some NotADirectory
      | Some Dir \<Rightarrow> None)"

definition Mkdir :: "fsys \<Rightarrow> path \<Rightarrow> fsys \<times> error option" where
  "Mkdir fs p =
     (case lookup fs p of
        Some _ \<Rightarrow> (fs, Some Exist)
      | None \<Rightarrow>
          (case parent_error fs p of
             Some e \<Rightarrow> (fs, Some e)
           | None \<Rightarrow> (AList.update p Dir fs, None)))"

function MkdirAll :: "fsys \<Rightarrow> path \<Rightarrow> fsys \<times> error option" where
  "MkdirAll fs p =
     (case lookup fs p of
        Some Dir \<Rightarrow> (fs, None)
      | Some (File _) \<Rightarrow> (fs, Some NotADirectory)
      | None \<Rightarrow>
          (case MkdirAll fs (butlast p) of
             (fs', Some e) \<Rightarrow> (fs', Some e)
           | (fs', None) \<Rightarrow>
               (case Mkdir fs' p of
                  (fs'', None) \<Rightarrow> (fs'', None)
                | (fs'', Some e) \<Rightarrow>
                    if lookup fs'' p = Some Dir then (fs'', None) else (fs'', Some e))))"
  by pat_completeness auto
termination
  by (relation "measure (\<lambda>(fs, p). length p)") (auto simp: lookup_def split: if_splits)

declare MkdirAll.simps [simp del]

text \<open>\<^verbatim>\<open>os.Create\<close>: create or truncate.\<close>

definition Create :: "fsys \<Rightarrow> path \<Rightarrow> fsys \<times> error option" where
  "Create fs p =
     (case lookup fs p of
        Some Dir \<Rightarrow> (fs, Some IsADirectory)
      | Some (File _) \<Rightarrow> (AList.update p (File []) fs, None)
      | None \<Rightarrow>
          (case parent_error fs p of
             Some e \<Rightarrow> (fs, Some e)
           | None \<Rightarrow> (AList.update p (File []) fs, None)))"

text \<open>\<^verbatim>\<open>os.OpenFile(p, O_CREATE|O_WRONLY|O_APPEND, 0644)\<close>: create if missing, keep the data.\<close>

definition OpenFile_append :: "fsys \<Rightarrow> path \<Rightarrow> fsys \<times> error option" where
  "OpenFile_append fs p =
     (case lookup fs p of
        Some Dir \<Rightarrow> (fs, Some IsADirectory)
      | Some (File _) \<Rightarrow> (fs, None)
      | None \<Rightarrow>
          (case parent_error fs p of
             Some e \<Rightarrow> (fs, Some e)
           | None \<Rightarrow> (AList.update p (File []) fs, None)))"

text \<open>\<^verbatim>\<open>os.Open\<close>: the node behind the handle; a directory opens, and fails when read.\<close>

definition Open :: "fsys \<Rightarrow> path \<Rightarrow> error + node" where
  "Open fs p = (case lookup fs p of None \<Rightarrow> Inl NotExist | Some n \<Rightarrow> Inr n)"

definition read_all :: "node \<Rightarrow> error + byte list" where
  "read_all n = (case n of Dir \<Rightarrow> Inl IsADirectory | File d \<Rightarrow> Inr d)"

definition append_file :: "fsys \<Rightarrow> path \<Rightarrow> byte list \<Rightarrow> fsys" where
  "append_file fs p bs =
     (case lookup fs p of
        Some (File d) \<Rightarrow> AList.update p (File (d @ bs)) fs
      | _ \<Rightarrow> fs)"

text \<open>\<^verbatim>\<open>os.Remove\<close> of a file (the package ignores its error) and \<^verbatim>\<open>os.RemoveAll\<close>.\<close>

definition Remove :: "fsys \<Rightarrow> path \<Rightarrow> fsys" where
  "Remove fs p =
     (case lookup fs p of
        Some (File _) \<Rightarrow> AList.delete p fs
      | Some Dir \<Rightarrow> if \<exists>q \<in> fst ` set fs. strict_prefix p q then fs else AList.delete p fs
      | None \<Rightarrow> fs)"

definition RemoveAll :: "fsys \<Rightarrow> path \<Rightarrow> fsys" where
  "RemoveAll fs p = filter (\<lambda>(q, n). \<not> prefix p q) fs"

subsection \<open>Downloads\<close>

text \<open>
  The request context is the number of polls that still find it live (\<open>None\<close>: it is never
  cancelled); every place where the source polls it takes one. The response writer
  records what the handler hands to it: the status (gin starts at 200), the header as an
  association list, and the bytes passed to \<^verbatim>\<open>Write\<close>. It accepts every write; what the HTTP
  server sends of them is not the package's code.
\<close>

type_synonym ctx = "nat option"

definition ctx_done :: "ctx \<Rightarrow> bool" where
  "ctx_done ctx = (ctx = Some 0)"

definition ctx_next :: "ctx \<Rightarrow> ctx" where
  "ctx_next ctx = (case ctx of None \<Rightarrow> None | Some n \<Rightarrow> Some (n - 1))"

record ResponseWriter =
  status :: int
  header :: "(string \<times> string) list"
  body :: "byte list"

definition Header_Set :: "ResponseWriter \<Rightarrow> string \<Rightarrow> string \<Rightarrow> ResponseWriter" where
  "Header_Set w k v = w\<lparr>header := AList.update k v (header w)\<rparr>"

definition WriteHeader :: "ResponseWriter \<Rightarrow> int \<Rightarrow> ResponseWriter" where
  "WriteHeader w code = w\<lparr>status := code\<rparr>"

definition Write :: "ResponseWriter \<Rightarrow> byte list \<Rightarrow> ResponseWriter" where
  "Write w bs = w\<lparr>body := body w @ bs\<rparr>"

definition StatusPartialContent :: int where
  "StatusPartialContent = 206"

definition DefaultBufferSize :: nat where
  "DefaultBufferSize = 4 * 1024 * 1024"

text \<open>
  \<open>copyWithCancel ctx dst src sz\<close>: \<open>src\<close> is what is left to read (or the error the
  first \<^verbatim>\<open>Read\<close> returns); each round polls the context, reads at most one buffer and
  writes it; an empty read is \<^verbatim>\<open>io.EOF\<close>. The source never reads its \<^verbatim>\<open>size\<close> argument \<open>sz\<close>.
\<close>

function copyWithCancel ::
  "ctx \<Rightarrow> ResponseWriter \<Rightarrow> error + byte list \<Rightarrow> int \<Rightarrow> ResponseWriter \<times> error option" where
  "copyWithCancel ctx dst src sz =
     (if ctx_done ctx then (dst, Some Canceled)
      else
        case src of
          Inl er \<Rightarrow> (dst, Some er)
        | Inr rest \<Rightarrow>
            if rest = [] then (dst, None)
            else copyWithCancel (ctx_next ctx) (Write dst (take DefaultBufferSize rest))
                   (Inr (drop DefaultBufferSize rest)) sz)"
  by pat_completeness auto
termination
  by (relation "measure (\<lambda>(ctx, dst, src, sz). case src of Inl _ \<Rightarrow> 0 | Inr r \<Rightarrow> length r)")
    (auto simp: DefaultBufferSize_def)

declare copyWithCancel.simps [simp del]

text \<open>
  \<^verbatim>\<open>f.Seek(start, io.SeekStart)\<close> on a handle for reading: a negative offset is refused, one
  past the end is not.
\<close>

definition Seek :: "node \<Rightarrow> int \<Rightarrow> error + (error + byte list)" where
  "Seek f start =
     (if start < 0 then Inl InvalidArgument
      else Inr (case f of Dir \<Rightarrow> Inl IsADirectory | File d \<Rightarrow> Inr (drop (nat start) d)))"

definition parseRangeHeader :: "string \<Rightarrow> error + (int \<times> int)" where
  "parseRangeHeader rangeHeader =
     (case strings_Split rangeHeader CHR ''='' of
        _ # parts # _ \<Rightarrow>
          (case strings_Split parts CHR ''-'' of
             [] \<Rightarrow> Inl Panic
           | r0 # rs \<Rightarrow>
               (case Atoi r0 of
                  Inl err \<Rightarrow> Inl err
                | Inr start \<Rightarrow>
                    (case rs of
                       [] \<Rightarrow> Inl Panic
                     | r1 # _ \<Rightarrow>
                         if r1 = [] then Inl RangeEndRequired
                         else (case Atoi r1 of
                                 Inl err \<Rightarrow> Inl err
                               | Inr end \<Rightarrow> Inr (start, end)))))
      | _ \<Rightarrow> Inl Panic)"

definition DownloadFile ::
  "ctx \<Rightarrow> ResponseWriter \<Rightarrow> fsys \<Rightarrow> path \<Rightarrow> string \<Rightarrow> string \<Rightarrow> ResponseWriter \<times> error option" where
  "DownloadFile ctx c fs storagePath filename rangeHeader =
     (let file = storagePath @ [filename] in
      case Stat fs file of
        Inl err \<Rightarrow> (c, Some err)
      | Inr (isDir, fileSize) \<Rightarrow>
          if rangeHeader \<noteq> [] then
            (case parseRangeHeader rangeHeader of
               Inl err \<Rightarrow> (c, Some err)
             | Inr (start, end) \<Rightarrow>
                 (case Open fs file of
                    Inl err \<Rightarrow> (c, Some err)
                  | Inr f \<Rightarrow>
                      let c1 = Header_Set c ''Content-Range''
                                 (''bytes '' @ show_int start @ ''-'' @ show_int end @ ''/''
                                    @ show_int fileSize);
                          c2 = Header_Set c1 ''Accept-Ranges'' ''bytes'';
                          c3 = Header_Set c2 ''Content-Length''
                                 (show_int (i64 (i64 (end - start) + 1)))
                      in if ctx_done ctx then (c3, Some Canceled)
                         else
                           let c4 = WriteHeader c3 StatusPartialContent in
                           case Seek f start of
                             Inl err \<Rightarrow> (c4, Some err)
                           | Inr src \<Rightarrow>
                               copyWithCancel (ctx_next ctx) c4 src
                                 (i64 (i64 (end - start) + 1))))
          else if ctx_done ctx then (c, Some Canceled)
          else
            (case Open fs file of
               Inl err \<Rightarrow> (c, Some err)
             | Inr f \<Rightarrow>
                 let c1 = Header_Set c ''Content-Disposition''
                            (''attachment; filename='' @ [CHR 0x22] @ filename @ [CHR 0x22]);
                     c2 = Header_Set c1 ''Content-Type'' ''application/octet-stream'';
                     c3 = Header_Set c2 ''Content-Length'' (show_int fileSize)
                 in if ctx_done (ctx_next ctx) then (c3, Some Canceled)
                    else copyWithCancel (ctx_next (ctx_next ctx)) c3 (read_all f) fileSize))"

definition DownloadFileChunk ::
  "ctx \<Rightarrow> ResponseWriter \<Rightarrow> fsys \<Rightarrow> path \<Rightarrow> string \<Rightarrow> int \<Rightarrow> int
     \<Rightarrow> ResponseWriter \<times> error option" where
  "DownloadFileChunk ctx c fs storagePath filename chunkIndex chunkSize =
     (let file = storagePath @ [filename] in
      case Stat fs file of
        Inl err \<Rightarrow> (c, Some err)
      | Inr (isDir, fileSize) \<Rightarrow>
          let start = i64 (chunkIndex * chunkSize);
              end0 = i64 (i64 (start + chunkSize) - 1);
              end = (if end0 \<ge> fileSize then i64 (fileSize - 1) else end0)
          in case Open fs file of
               Inl err \<Rightarrow> (c, Some err)
             | Inr f \<Rightarrow>
                 let c1 = Header_Set c ''Content-Range''
                            (''bytes '' @ show_int start @ ''-'' @ show_int end @ ''/''
                               @ show_int fileSize);
                     c2 = Header_Set c1 ''Accept-Ranges'' ''bytes'';
                     c3 = Header_Set c2 ''Content-Length''
                            (show_int (i64 (i64 (end - start) + 1)))
                 in if ctx_done ctx then (c3, Some Canceled)
                    else
                      let c4 = WriteHeader c3 StatusPartialContent in
                      case Seek f start of
                        Inl err \<Rightarrow> (c4, Some err)
                      | Inr src \<Rightarrow>
                          copyWithCancel (ctx_next ctx) c4 src
                            (i64 (i64 (end - start) + 1)))"

subsection \<open>Uploads\<close>

text \<open>
  An uploaded part is its file name and what \<^verbatim>\<open>file.Open()\<close> followed by reading it to the
  end gives: an error or the bytes.
\<close>

record FileHeader =
  Filename :: string
  fh_Open :: "error + byte list"

text \<open>
  A write through the handle of \<open>OpenFile_append\<close>. The offset is the one \<^verbatim>\<open>Seek\<close> left; the
  operating system does not read it.
\<close>

definition write_append :: "fsys \<Rightarrow> path \<Rightarrow> int \<Rightarrow> byte list \<Rightarrow> fsys" where
  "write_append fs p offset bs = append_file fs p bs"

definition SaveFile :: "fsys \<Rightarrow> path \<Rightarrow> FileHeader \<Rightarrow> string \<Rightarrow> fsys \<times> error option" where
  "SaveFile fs storagePath file rangeHeader =
     (let dest = storagePath @ [Filename file] in
      case MkdirAll fs storagePath of
        (fs1, Some err) \<Rightarrow> (fs1, Some err)
      | (fs1, None) \<Rightarrow>
          (case (if rangeHeader \<noteq> [] then
                   (case strings_Split (strings_TrimPrefix rangeHeader ''bytes='') CHR ''-'' of
                      [] \<Rightarrow> Inr 0
                    | p0 # _ \<Rightarrow> ParseInt p0)
                 else Inr 0) of
             Inl err \<Rightarrow> (fs1, Some err)
           | Inr start \<Rightarrow>
               (case fh_Open file of
                  Inl err \<Rightarrow> (fs1, Some err)
                | Inr src \<Rightarrow>
                    (case OpenFile_append fs1 dest of
                       (fs2, Some err) \<Rightarrow> (fs2, Some err)
                     | (fs2, None) \<Rightarrow>
                         (write_append fs2 dest (if start > 0 then start else 0) src, None)))))"

subsection \<open>Chunked upload and merge\<close>

record FileChunkInfo =
  FileName :: string
  TotalSize :: int
  ChunkIndex :: int
  ChunkSize :: int
  TotalChunk :: int
  ci_MD5 :: string

text \<open>
  \<^verbatim>\<open>filepath.Glob(filepath.Join(chunkDir, fmt.Sprintf("*_%d", i)))\<close>. When no component of
  \<open>chunkDir\<close> holds one of the characters \<^verbatim>\<open>* ? [\<close> and the backslash, the library reads the directory,
  sorts the names and keeps those the pattern matches: the names that end with \<^verbatim>\<open>_\<close> and the
  decimal index. Otherwise it expands the directory part as a pattern too; that result is
  the argument \<open>glob_meta\<close>.
\<close>

definition has_meta :: "string \<Rightarrow> bool" where
  "has_meta s = list_ex (\<lambda>c. c = CHR ''*'' \<or> c = CHR ''?'' \<or> c = CHR ''['' \<or> c = CHR 0x5C) s"

definition match_star :: "string \<Rightarrow> string \<Rightarrow> bool" where
  "match_star lit n = (length lit \<le> length n \<and> drop (length n - length lit) n = lit)"

definition dir_names :: "fsys \<Rightarrow> path \<Rightarrow> string list" where
  "dir_names fs d =
     (if lookup fs d = Some Dir
      then sort (remdups (map last (filter (\<lambda>p. p \<noteq> [] \<and> butlast p = d) (map fst fs))))
      else [])"

type_synonym glob_fun = "fsys \<Rightarrow> path \<Rightarrow> int \<Rightarrow> error + path list"

definition Glob_chunk :: "glob_fun \<Rightarrow> fsys \<Rightarrow> path \<Rightarrow> int \<Rightarrow> error + path list" where
  "Glob_chunk glob_meta fs chunkDir i =
     (if list_ex has_meta chunkDir then glob_meta fs chunkDir i
      else Inr (map (\<lambda>n. chunkDir @ [n])
                  (filter (match_star (''_'' @ show_int i)) (dir_names fs chunkDir))))"

function merge_loop ::
  "glob_fun \<Rightarrow> fsys \<Rightarrow> path \<Rightarrow> path \<Rightarrow> int \<Rightarrow> int \<Rightarrow> fsys \<times> error option" where
  "merge_loop glob_meta fs chunkDir targetFile i totalChunk =
     (if i < totalChunk then
        (case Glob_chunk glob_meta fs chunkDir i of
           Inl err \<Rightarrow> (fs, Some err)
         | Inr matches \<Rightarrow>
             (case matches of
                [] \<Rightarrow> (fs, Some (ChunkNotFound i))
              | m # _ \<Rightarrow>
                  (case Open fs m of
                     Inl err \<Rightarrow> (fs, Some err)
                   | Inr chunkFile \<Rightarrow>
                       (case read_all chunkFile of
                          Inl err \<Rightarrow> (fs, Some err)
                        | Inr bs \<Rightarrow>
                            merge_loop glob_meta (append_file fs targetFile bs) chunkDir
                              targetFile (i + 1) totalChunk))))
      else (fs, None))"
  by pat_completeness auto
termination
  by (relation "measure (\<lambda>(g, fs, cd, t, i, n). nat (n - i))") auto

declare merge_loop.simps [simp del]

definition mergeFileChunks ::
  "glob_fun \<Rightarrow> fsys \<Rightarrow> path \<Rightarrow> path \<Rightarrow> int \<Rightarrow> fsys \<times> error option" where
  "mergeFileChunks glob_meta fs chunkDir targetFile totalChunk =
     (case Create fs targetFile of
        (fs1, Some err) \<Rightarrow> (fs1, Some err)
      | (fs1, None) \<Rightarrow>
          (case merge_loop glob_meta fs1 chunkDir targetFile 0 totalChunk of
             (fs2, Some err) \<Rightarrow> (fs2, Some err)
           | (fs2, None) \<Rightarrow> (RemoveAll fs2 chunkDir, None)))"

text \<open>\<open>md5hex\<close> stands for \<^verbatim>\<open>hex.EncodeToString\<close> of \<^verbatim>\<open>crypto/md5\<close>'s digest.\<close>

definition calculateFileMD5 :: "(byte list \<Rightarrow> string) \<Rightarrow> fsys \<Rightarrow> path \<Rightarrow> error + string" where
  "calculateFileMD5 md5hex fs filePath =
     (case Open fs filePath of
        Inl err \<Rightarrow> Inl err
      | Inr f \<Rightarrow> (case read_all f of Inl err \<Rightarrow> Inl err | Inr bs \<Rightarrow> Inr (md5hex bs)))"

text \<open>The first half of \<open>SaveFileChunk\<close>: the chunk is written to its staging file.\<close>

definition chunk_dir :: "path \<Rightarrow> FileChunkInfo \<Rightarrow> path" where
  "chunk_dir storagePath chunkInfo = storagePath @ [''chunks'', FileName chunkInfo]"

definition chunk_path :: "path \<Rightarrow> FileChunkInfo \<Rightarrow> path" where
  "chunk_path storagePath chunkInfo =
     chunk_dir storagePath chunkInfo
       @ [FileName chunkInfo @ ''_'' @ show_int (ChunkIndex chunkInfo)]"

definition SaveFileChunk_persist ::
  "fsys \<Rightarrow> path \<Rightarrow> FileChunkInfo \<Rightarrow> FileHeader \<Rightarrow> fsys \<times> error option" where
  "SaveFileChunk_persist fs storagePath chunkInfo file =
     (case MkdirAll fs (chunk_dir storagePath chunkInfo) of
        (fs1, Some err) \<Rightarrow> (fs1, Some err)
      | (fs1, None) \<Rightarrow>
          (case fh_Open file of
             Inl err \<Rightarrow> (fs1, Some err)
           | Inr src \<Rightarrow>
               (case Create fs1 (chunk_path storagePath chunkInfo) of
                  (fs2, Some err) \<Rightarrow> (fs2, Some err)
                | (fs2, None) \<Rightarrow>
                    (append_file fs2 (chunk_path storagePath chunkInfo) src, None))))"

definition SaveFileChunk ::
  "(byte list \<Rightarrow> string) \<Rightarrow> glob_fun \<Rightarrow> fsys \<Rightarrow> path \<Rightarrow> FileChunkInfo \<Rightarrow> FileHeader
     \<Rightarrow> fsys \<times> error option" where
  "SaveFileChunk md5hex glob_meta fs storagePath chunkInfo file =
     (case SaveFileChunk_persist fs storagePath chunkInfo file of
        (fs3, Some err) \<Rightarrow> (fs3, Some err)
      | (fs3, None) \<Rightarrow>
          if ChunkIndex chunkInfo = i64 (TotalChunk chunkInfo - 1) then
            (case mergeFileChunks glob_meta fs3 (chunk_dir storagePath chunkInfo)
                    (storagePath @ [FileName chunkInfo]) (TotalChunk chunkInfo) of
               (fs4, Some err) \<Rightarrow> (fs4, Some err)
             | (fs4, None) \<Rightarrow>
                 (case calculateFileMD5 md5hex fs4 (storagePath @ [FileName chunkInfo]) of
                    Inl err \<Rightarrow> (fs4, Some err)
                  | Inr md5sum \<Rightarrow>
                      if md5sum \<noteq> ci_MD5 chunkInfo then
                        (Remove fs4 (storagePath @ [FileName chunkInfo]),
                         Some (IntegrityFailed (ci_MD5 chunkInfo) md5sum))
                      else (fs4, None)))
          else (fs3, None))"

text \<open>
  The package's state is the disk and the global \<^verbatim>\<open>md5Cache\<close>. \<open>SaveFileChunk\<close>, the merge and
  \<open>calculateFileMD5\<close> do not name the cache.
\<close>

record world =
  disk :: fsys
  md5Cache :: MD5Cache

definition SaveFileChunk_world ::
  "(byte list \<Rightarrow> string) \<Rightarrow> glob_fun \<Rightarrow> world \<Rightarrow> path \<Rightarrow> FileChunkInfo \<Rightarrow> FileHeader
     \<Rightarrow> world \<times> error option" where
  "SaveFileChunk_world md5hex glob_meta w storagePath chunkInfo file =
     (case SaveFileChunk md5hex glob_meta (disk w) storagePath chunkInfo file of
        (fs', e) \<Rightarrow> (w\<lparr>disk := fs'\<rparr>, e))"

text \<open>The data the merge finds for index \<open>j\<close>: the first match of the pattern, read.\<close>

definition found_chunk :: "glob_fun \<Rightarrow> fsys \<Rightarrow> path \<Rightarrow> int \<Rightarrow> byte list option" where
  "found_chunk glob_meta fs chunkDir j =
     (case Glob_chunk glob_meta fs chunkDir j of
        Inr (m # _) \<Rightarrow> file_at fs m
      | _ \<Rightarrow> None)"

text \<open>
  Vocabulary for the listing: a fingerprint-valid cached checksum and a computation in
  flight, as \<open>ListFiles\<close> reads them from the cache.
\<close>

definition cache_hit :: "MD5Cache \<Rightarrow> path \<Rightarrow> Time \<Rightarrow> int \<Rightarrow> bool" where
  "cache_hit mc p t s = snd (GetMD5FromCache mc p t s)"

definition in_flight :: "MD5Cache \<Rightarrow> path \<Rightarrow> bool" where
  "in_flight mc p = fst (snd (GetProgress mc p))"

subsection \<open>Example data\<close>

text \<open>A small disk, before and after the last chunk of a two-chunk upload, and its merge.\<close>

abbreviation staged_one :: fsys where
  "staged_one \<equiv>
     [([''data''], Dir), ([''data'', ''chunks''], Dir), ([''data'', ''chunks'', ''a.bin''], Dir),
      ([''data'', ''chunks'', ''a.bin'', ''a.bin_0''], File [1, 2, 3])]"

abbreviation staged_two :: fsys where
  "staged_two \<equiv>
     [([''data''], Dir), ([''data'', ''chunks''], Dir), ([''data'', ''chunks'', ''a.bin''], Dir),
      ([''data'', ''chunks'', ''a.bin'', ''a.bin_0''], File [1, 2, 3]),
      ([''data'', ''chunks'', ''a.bin'', ''a.bin_1''], File [4, 5])]"

abbreviation merged_disk :: fsys where
  "merged_disk \<equiv>
     [([''data''], Dir), ([''data'', ''chunks''], Dir), ([''data'', ''a.bin''], File [1, 2, 3, 4, 5])]"

abbreviation last_chunk :: "string \<Rightarrow> FileChunkInfo" where
  "last_chunk declared \<equiv>
     \<lparr>FileName = ''a.bin'', TotalSize = 5, ChunkIndex = 1, ChunkSize = 3, TotalChunk = 2,
      ci_MD5 = declared\<rparr>"

abbreviation toy_md5 :: "byte list \<Rightarrow> string" where
  "toy_md5 \<equiv> (\<lambda>bs. if bs = [1, 2, 3, 4, 5] then ''7cfdd07889b3295d6a550914ab35e068''
                    else ''d41d8cd98f00b204e9800998ecf8427e'')"

abbreviation no_glob :: glob_fun where
  "no_glob \<equiv> (\<lambda>fs d i. Inr [])"

text \<open>
  An upload of three chunks of a file named \<^verbatim>\<open>a[1].bin\<close>: chunks 0 and 2 are staged, chunk 1
  is not.
\<close>

abbreviation staged_pattern :: fsys where
  "staged_pattern \<equiv>
     [([''data''], Dir), ([''data'', ''chunks''], Dir),
      ([''data'', ''chunks'', ''a[1].bin''], Dir),
      ([''data'', ''chunks'', ''a[1].bin'', ''a[1].bin_0''], File [1, 2, 3]),
      ([''data'', ''chunks'', ''a[1].bin'', ''a[1].bin_2''], File [6])]"

section \<open>Theorems\<close>

text \<open>
  C5. \<open>GetMD5FromCache\<close> reports a hit exactly when the path has an entry whose stored
  modification time and size equal the ones asked for and whose state is Calculated; the
  checksum returned is then the entry's. Hence a different modification time, a different
  size, a missing entry or an entry that is not Calculated is a miss.
\<close>

theorem GetMD5FromCache_hit_iff:
  "(GetMD5FromCache mc p t s = (h, True)) =
     (\<exists>e. mc p = Some e \<and> ModTime e = t \<and> Size e = s \<and> Calculated e \<and> h = MD5 e)"
  by (auto simp: GetMD5FromCache_def split: option.splits)

theorem GetMD5FromCache_hit_iff_witness:
  "GetMD5FromCache
     (Map.empty([''data'', ''a.bin''] \<mapsto>
        \<lparr>MD5 = ''900150983cd24fb0d6963f7d28e17f72'', ModTime = 1700000000, Size = 3,
         Calculated = True, Calculating = False, Progress = 0, Error = ''''\<rparr>))
     [''data'', ''a.bin''] 1700000000 3 = (''900150983cd24fb0d6963f7d28e17f72'', True)
   \<and> GetMD5FromCache
     (Map.empty([''data'', ''a.bin''] \<mapsto>
        \<lparr>MD5 = ''900150983cd24fb0d6963f7d28e17f72'', ModTime = 1700000000, Size = 3,
         Calculated = True, Calculating = False, Progress = 0, Error = ''''\<rparr>))
     [''data'', ''a.bin''] 1700000001 3 \<noteq> (''900150983cd24fb0d6963f7d28e17f72'', True)"
  by (simp add: GetMD5FromCache_hit_iff)

text \<open>
  C9. No cache entry is Calculated and Calculating at once: the empty cache satisfies
  this, and \<open>SetMD5ToCache\<close>, \<open>SetCalculating\<close>, \<open>SetError\<close> and \<open>UpdateProgress\<close> each
  keep it, from any cache that satisfies it.
\<close>

theorem cache_exclusive_preserved:
  "cache_exclusive Map.empty \<and>
   (cache_exclusive mc \<longrightarrow>
      cache_exclusive (SetMD5ToCache mc p md5 t s) \<and>
      cache_exclusive (SetCalculating mc p t s) \<and>
      cache_exclusive (SetError mc p err) \<and>
      cache_exclusive (UpdateProgress mc p pr))"
  by (auto simp: cache_exclusive_def SetMD5ToCache_def SetCalculating_def SetError_def
      UpdateProgress_def split: option.splits if_splits)

theorem cache_exclusive_preserved_witness:
  "cache_exclusive (SetCalculating Map.empty [''data'', ''a.bin''] 1700000000 3) \<and>
   cache_exclusive
     (SetError (SetCalculating Map.empty [''data'', ''a.bin''] 1700000000 3)
        [''data'', ''a.bin''] ''read failed'') \<and>
   cache_exclusive
     (UpdateProgress (SetCalculating Map.empty [''data'', ''a.bin''] 1700000000 3)
        [''data'', ''a.bin''] (1 / 2)) \<and>
   cache_exclusive
     (SetMD5ToCache (SetCalculating Map.empty [''data'', ''a.bin''] 1700000000 3)
        [''data'', ''a.bin''] ''900150983cd24fb0d6963f7d28e17f72'' 1700000000 3)"
proof -
  have e: "cache_exclusive (Map.empty :: MD5Cache)"
    using cache_exclusive_preserved by blast
  have c: "cache_exclusive (SetCalculating Map.empty [''data'', ''a.bin''] 1700000000 3)"
    using cache_exclusive_preserved [of Map.empty] e by blast
  show ?thesis
    using c cache_exclusive_preserved
      [of "SetCalculating Map.empty [''data'', ''a.bin''] 1700000000 3"]
    by blast
qed

subsection \<open>ListFiles\<close>

lemma ListFiles_step_return:
  "ListFiles_step sp (m, js) (AtLoop [] fs) = ((m, js), Returned (Inr fs))"
  by simp

lemma ListFiles_step_miss:
  assumes "\<not> cache_hit m (sp @ [fi_Name info]) (fi_ModTime info) (fi_Size info)"
  shows "ListFiles_step sp (m, js) (AtLoop (\<lparr>IsDir = False, Info = Inr info\<rparr> # es) fs) =
           ((m, js), AfterGetMD5 info es fs)"
proof -
  obtain h where "GetMD5FromCache m (sp @ [fi_Name info]) (fi_ModTime info) (fi_Size info) =
                    (h, False)"
    using assms
    by (cases "GetMD5FromCache m (sp @ [fi_Name info]) (fi_ModTime info) (fi_Size info)")
      (simp add: cache_hit_def)
  then show ?thesis by (simp add: Let_def)
qed

lemma ListFiles_step_guard:
  "ListFiles_step sp (m, js) (AfterGetMD5 info es fs) =
     ((m, js),
      if in_flight m (sp @ [fi_Name info]) then AtLoop es (fs @ [FileMetadata_of info ''''])
      else AfterGetProgress info es fs)"
  by (cases "GetProgress m (sp @ [fi_Name info])") (simp add: Let_def in_flight_def)

lemma ListFiles_step_start_job:
  "ListFiles_step sp (m, js) (AfterGetProgress info es fs) =
     ((SetCalculating m (sp @ [fi_Name info]) (fi_ModTime info) (fi_Size info),
       js @ [(sp @ [fi_Name info], fi_ModTime info, fi_Size info)]),
      AtLoop es (fs @ [FileMetadata_of info '''']))"
  by (simp add: Let_def)

lemma SetCalculating_state:
  "in_flight (SetCalculating m p t s) p"
  "\<not> cache_hit (SetCalculating m p t s) p t' s'"
  "SetCalculating (SetCalculating m p t s) p t s = SetCalculating m p t s"
  by (simp_all add: in_flight_def cache_hit_def GetProgress_def GetMD5FromCache_def
      SetCalculating_def)

text \<open>
  C6 fails on the code when two listings of one directory run at the same time. The directory
  holds one regular file with no checksum in the cache and no computation in flight. Each call
  on the cache locks for itself, so the second listing can read the progress before the first
  has marked the path:
  \<^item> after the schedule \<open>[0, 0, 1, 1, 0]\<close> the first listing has marked the path as being
    calculated and started its job, and the second listing is past its own check;
  \<^item> the entry of the path is then in flight;
  \<^item> after three more steps both listings have returned the file with an empty MD5 and two jobs
    for the same path have been started, the second while the entry was in flight;
  \<^item> when the first listing runs to its end before the second starts, one job is started.
\<close>

theorem ListFiles_concurrent_duplicate_job:
  assumes "\<not> cache_hit mc (sp @ [fi_Name info]) (fi_ModTime info) (fi_Size info)"
    and "\<not> in_flight mc (sp @ [fi_Name info])"
  shows
    "run_listings sp [0, 0, 1, 1, 0]
       ((mc, []),
        [ListFiles_start None (Inr [\<lparr>IsDir = False, Info = Inr info\<rparr>]),
         ListFiles_start None (Inr [\<lparr>IsDir = False, Info = Inr info\<rparr>])]) =
       ((SetCalculating mc (sp @ [fi_Name info]) (fi_ModTime info) (fi_Size info),
         [(sp @ [fi_Name info], fi_ModTime info, fi_Size info)]),
        [AtLoop [] [FileMetadata_of info ''''], AfterGetProgress info [] []])
     \<and> in_flight (SetCalculating mc (sp @ [fi_Name info]) (fi_ModTime info) (fi_Size info))
           (sp @ [fi_Name info])
     \<and> run_listings sp [0, 0, 1, 1, 0, 1, 0, 1]
       ((mc, []),
        [ListFiles_start None (Inr [\<lparr>IsDir = False, Info = Inr info\<rparr>]),
         ListFiles_start None (Inr [\<lparr>IsDir = False, Info = Inr info\<rparr>])]) =
       ((SetCalculating mc (sp @ [fi_Name info]) (fi_ModTime info) (fi_Size info),
         [(sp @ [fi_Name info], fi_ModTime info, fi_Size info),
          (sp @ [fi_Name info], fi_ModTime info, fi_Size info)]),
        [Returned (Inr [FileMetadata_of info '''']), Returned (Inr [FileMetadata_of info ''''])])
     \<and> run_listings sp [0, 0, 0, 0, 1, 1, 1]
       ((mc, []),
        [ListFiles_start None (Inr [\<lparr>IsDir = False, Info = Inr info\<rparr>]),
         ListFiles_start None (Inr [\<lparr>IsDir = False, Info = Inr info\<rparr>])]) =
       ((SetCalculating mc (sp @ [fi_Name info]) (fi_ModTime info) (fi_Size info),
         [(sp @ [fi_Name info], fi_ModTime info, fi_Size info)]),
        [Returned (Inr [FileMetadata_of info '''']), Returned (Inr [FileMetadata_of info ''''])])"
  using assms
  by (simp add: ListFiles_start_def ListFiles_step_return ListFiles_step_miss
      ListFiles_step_guard ListFiles_step_start_job SetCalculating_state
      del: ListFiles_step.simps)

theorem ListFiles_concurrent_duplicate_job_witness:
  "run_listings [''data''] [0, 0, 1, 1, 0, 1, 0, 1]
     ((Map.empty, []),
      [ListFiles_start None
         (Inr [\<lparr>IsDir = False,
                Info = Inr \<lparr>fi_Name = ''b.bin'', fi_Size = 10, fi_ModTime = 1700000005\<rparr>\<rparr>]),
       ListFiles_start None
         (Inr [\<lparr>IsDir = False,
                Info = Inr \<lparr>fi_Name = ''b.bin'', fi_Size = 10, fi_ModTime = 1700000005\<rparr>\<rparr>])]) =
     ((SetCalculating Map.empty [''data'', ''b.bin''] 1700000005 10,
       [([''data'', ''b.bin''], 1700000005, 10), ([''data'', ''b.bin''], 1700000005, 10)]),
      [Returned (Inr [\<lparr>fm_Name = ''b.bin'', fm_Size = 10, fm_ModTime = 1700000005,
                       fm_MD5 = ''''\<rparr>]),
       Returned (Inr [\<lparr>fm_Name = ''b.bin'', fm_Size = 10, fm_ModTime = 1700000005,
                       fm_MD5 = ''''\<rparr>])])"
proof -
  have 1: "\<not> cache_hit Map.empty
              ([''data''] @ [fi_Name \<lparr>fi_Name = ''b.bin'', fi_Size = 10, fi_ModTime = 1700000005\<rparr>])
              (fi_ModTime \<lparr>fi_Name = ''b.bin'', fi_Size = 10, fi_ModTime = 1700000005\<rparr>)
              (fi_Size \<lparr>fi_Name = ''b.bin'', fi_Size = 10, fi_ModTime = 1700000005\<rparr>)"
    by (simp add: cache_hit_def GetMD5FromCache_def)
  have 2: "\<not> in_flight Map.empty
              ([''data''] @ [fi_Name \<lparr>fi_Name = ''b.bin'', fi_Size = 10, fi_ModTime = 1700000005\<rparr>])"
    by (simp add: in_flight_def GetProgress_def)
  from ListFiles_concurrent_duplicate_job [OF 1 2]
  show ?thesis
    by (simp add: FileMetadata_of_def)
qed

subsection \<open>Decimal numbers\<close>

lemma below_ten: "d < 10 \<Longrightarrow> d \<in> {0, 1, 2, 3, 4, 5, 6, 7, 8, 9 :: nat}"
  by auto

lemma digit_of_digit_char: "d < 10 \<Longrightarrow> digit_of (digit_char d) = Some d"
  using below_ten [of d] by (auto simp: digit_of_def digit_char_def)

lemma show_nat_digits: "c \<in> set (show_nat n) \<Longrightarrow> digit_of c \<noteq> None"
proof (induction n rule: show_nat.induct)
  case (1 n)
  show ?case
  proof (cases "n < 10")
    case True
    then show ?thesis
      using 1(2) digit_of_digit_char [of n] by (simp add: show_nat.simps [of n])
  next
    case False
    then show ?thesis
      using 1 digit_of_digit_char [of "n mod 10"] by (auto simp: show_nat.simps [of n])
  qed
qed

lemma show_nat_nonempty: "show_nat n \<noteq> []"
  by (simp add: show_nat.simps [of n])

lemma show_nat_no_sign:
  "CHR ''-'' \<notin> set (show_nat n)" "CHR ''='' \<notin> set (show_nat n)" "CHR ''+'' \<notin> set (show_nat n)"
proof -
  have none: "digit_of CHR ''-'' = None" "digit_of CHR ''='' = None" "digit_of CHR ''+'' = None"
    by (simp_all add: digit_of_def)
  show "CHR ''-'' \<notin> set (show_nat n)"
    using show_nat_digits [of "CHR ''-''" n] none(1) by blast
  show "CHR ''='' \<notin> set (show_nat n)"
    using show_nat_digits [of "CHR ''=''" n] none(2) by blast
  show "CHR ''+'' \<notin> set (show_nat n)"
    using show_nat_digits [of "CHR ''+''" n] none(3) by blast
qed

lemma ParseUint_loop_append:
  "ParseUint_loop n (xs @ ys) =
     (case ParseUint_loop n xs of Inl e \<Rightarrow> Inl e | Inr m \<Rightarrow> ParseUint_loop m ys)"
  by (induction xs arbitrary: n) (auto split: option.splits)

lemma ParseUint_loop_show_nat:
  "n \<le> maxUint64 \<Longrightarrow> ParseUint_loop 0 (show_nat n) = Inr n"
proof (induction n rule: show_nat.induct)
  case (1 n)
  show ?case
  proof (cases "n < 10")
    case True
    then show ?thesis
      by (simp add: show_nat.simps [of n] digit_of_digit_char maxUint64_def)
  next
    case False
    have le: "n div 10 \<le> maxUint64" using 1(2) by simp
    have ih: "ParseUint_loop 0 (show_nat (n div 10)) = Inr (n div 10)"
      using 1(1) [OF False le] .
    have c: "\<not> maxUint64 div 10 + 1 \<le> n div 10"
      using 1(2) by (simp add: maxUint64_def)
    have "ParseUint_loop 0 (show_nat n) = ParseUint_loop (n div 10) [digit_char (n mod 10)]"
      using False ih by (simp add: show_nat.simps [of n] ParseUint_loop_append)
    also have "\<dots> = Inr n"
      using c 1(2) by (simp add: digit_of_digit_char)
    finally show ?thesis .
  qed
qed

lemma ParseInt_show_nat: "n < 2 ^ 63 \<Longrightarrow> ParseInt (show_nat n) = Inr (int n)"
proof -
  assume n: "n < 2 ^ 63"
  have h: "hd (show_nat n) \<in> set (show_nat n)"
    using show_nat_nonempty by simp
  have s: "hd (show_nat n) \<noteq> CHR ''-''" "hd (show_nat n) \<noteq> CHR ''+''"
    using h show_nat_no_sign [of n] by metis+
  have u: "ParseUint (show_nat n) = Inr n"
    using n ParseUint_loop_show_nat [of n] by (simp add: ParseUint_def show_nat_nonempty maxUint64_def)
  show ?thesis
    using n by (simp add: ParseInt_def show_nat_nonempty s u)
qed

lemma Split_no_sep: "sep \<notin> set s \<Longrightarrow> strings_Split s sep = [s]"
  by (induction s) auto

lemma Split_at_sep:
  "sep \<notin> set s \<Longrightarrow> strings_Split (s @ sep # t) sep = s # strings_Split t sep"
  by (induction s) auto

subsection \<open>Downloads\<close>

lemma i64_id: "- (2 ^ 63) \<le> x \<Longrightarrow> x < 2 ^ 63 \<Longrightarrow> i64 x = x"
  by (simp add: i64_def)

lemma copyWithCancel_live:
  "copyWithCancel None dst (Inr d) sz = (dst\<lparr>body := body dst @ d\<rparr>, None)"
proof (induction "None :: ctx" dst "Inr d :: error + byte list" sz arbitrary: d rule: copyWithCancel.induct)
  case (1 dst sz)
  show ?case
  proof (cases "d = []")
    case True
    then show ?thesis by (simp add: copyWithCancel.simps [of None dst] ctx_done_def)
  next
    case False
    have "copyWithCancel None dst (Inr d) sz =
          copyWithCancel None (Write dst (take DefaultBufferSize d)) (Inr (drop DefaultBufferSize d)) sz"
      using False by (simp add: copyWithCancel.simps [of None dst] ctx_done_def ctx_next_def)
    also have "\<dots> = ((Write dst (take DefaultBufferSize d))\<lparr>body := body (Write dst (take DefaultBufferSize d)) @ drop DefaultBufferSize d\<rparr>, None)"
      using 1 [of d] False by (simp add: ctx_done_def ctx_next_def)
    finally show ?thesis by (simp add: Write_def)
  qed
qed

lemma parseRangeHeader_100_199: "parseRangeHeader ''bytes=100-199'' = Inr (100, 199)"
  by (simp add: parseRangeHeader_def Atoi_def ParseInt_def ParseUint_def digit_of_def maxUint64_def)

lemma file_at_Stat: "file_at fs p = Some d \<Longrightarrow> Stat fs p = Inr (False, int (length d))"
  by (auto simp: file_at_def Stat_def split: option.splits node.splits)

lemma file_at_Open: "file_at fs p = Some d \<Longrightarrow> Open fs p = Inr (File d)"
  by (auto simp: file_at_def Open_def split: option.splits node.splits)

text \<open>
  C3. What \<open>DownloadFile\<close> does for \<^verbatim>\<open>bytes=100-199\<close> on a stored file of 1000 bytes when
  the request is never cancelled: status 206, \<^verbatim>\<open>Content-Range: bytes 100-199/1000\<close>,
  \<^verbatim>\<open>Content-Length: 100\<close>, and the bytes from offset 100 to the end of the file, 900 of
  them, handed to the writer: \<open>copyWithCancel\<close> ignores the length it is given.
\<close>

theorem DownloadFile_range_streams_to_end_of_file:
  assumes "file_at fs (sp @ [name]) = Some content" and "length content = 1000"
  shows "DownloadFile None c fs sp name ''bytes=100-199'' =
           (c\<lparr>status := 206,
              header := AList.update ''Content-Length'' ''100''
                          (AList.update ''Accept-Ranges'' ''bytes''
                             (AList.update ''Content-Range'' ''bytes 100-199/1000'' (header c))),
              body := body c @ drop 100 content\<rparr>, None)
         \<and> length (drop 100 content) = 900"
proof -
  have s: "show_int 100 = ''100''" "show_int 199 = ''199''" "show_int 1000 = ''1000''"
    by (simp_all add: show_int_def show_nat.simps digit_char_def)
  have n: "i64 (i64 99 + 1) = 100"
    by (simp add: i64_def)
  show ?thesis
    using assms
    by (simp add: DownloadFile_def file_at_Stat file_at_Open parseRangeHeader_100_199 s n
        ctx_done_def ctx_next_def Seek_def copyWithCancel_live Header_Set_def WriteHeader_def
        StatusPartialContent_def)
qed

theorem DownloadFile_range_streams_to_end_of_file_witness:
  "DownloadFile None \<lparr>status = 200, header = [], body = []\<rparr>
     [([''data''], Dir), ([''data'', ''a.bin''], File (replicate 1000 7))]
     [''data''] ''a.bin'' ''bytes=100-199'' =
   (\<lparr>status = 206,
     header = [(''Content-Range'', ''bytes 100-199/1000''), (''Accept-Ranges'', ''bytes''),
               (''Content-Length'', ''100'')],
     body = replicate 900 7\<rparr>, None)"
proof -
  have f: "file_at [([''data''], Dir), ([''data'', ''a.bin''], File (replicate 1000 7))]
             ([''data''] @ [''a.bin'']) = Some (replicate 1000 7)"
    by (simp add: file_at_def lookup_def)
  show ?thesis
    using DownloadFile_range_streams_to_end_of_file [OF f, of "\<lparr>status = 200, header = [], body = []\<rparr>"]
    by simp
qed

text \<open>
  C4 fails on the code. The comment over the guard in \<open>parseRangeHeader\<close> says that a header
  with no end position means "to the end", and \<open>SaveFile\<close> accepts \<^verbatim>\<open>bytes=<start>-\<close>; the
  guard itself returns an error. For every start position below \<open>2 ^ 63\<close>, the header
  \<^verbatim>\<open>bytes=<start>-\<close> makes \<open>parseRangeHeader\<close> fail with \<open>RangeEndRequired\<close>, and
  \<open>DownloadFile\<close> on a stored file returns that error with the response writer as it was:
  no header, no status, no byte of the file.
\<close>

theorem DownloadFile_open_ended_range_rejected:
  assumes "n < 2 ^ 63" and "file_at fs (sp @ [name]) = Some d"
  shows "parseRangeHeader (''bytes='' @ show_nat n @ ''-'') = Inl RangeEndRequired \<and>
         DownloadFile ctx c fs sp name (''bytes='' @ show_nat n @ ''-'') =
           (c, Some RangeEndRequired)"
proof -
  have a: "strings_Split (show_nat n @ ''-'') CHR ''='' = [show_nat n @ ''-'']"
    using Split_no_sep [of "CHR ''=''" "show_nat n @ ''-''"] show_nat_no_sign(2) [of n] by simp
  have b: "strings_Split (show_nat n @ ''-'') CHR ''-'' = [show_nat n, []]"
    using Split_at_sep [of "CHR ''-''" "show_nat n" "[]"] show_nat_no_sign(1) [of n] by simp
  have p: "parseRangeHeader (''bytes='' @ show_nat n @ ''-'') = Inl RangeEndRequired"
    using assms(1) by (simp add: parseRangeHeader_def a b Atoi_def ParseInt_show_nat)
  have "DownloadFile ctx c fs sp name (''bytes='' @ show_nat n @ ''-'') =
           (c, Some RangeEndRequired)"
    using assms(2) unfolding DownloadFile_def p by (simp add: file_at_Stat)
  with p show ?thesis by simp
qed

theorem DownloadFile_open_ended_range_rejected_witness:
  "DownloadFile (Some 5) \<lparr>status = 200, header = [], body = []\<rparr>
     [([''data''], Dir), ([''data'', ''a.bin''], File (replicate 1000 7))]
     [''data''] ''a.bin'' ''bytes=100-'' =
   (\<lparr>status = 200, header = [], body = []\<rparr>, Some RangeEndRequired)"
proof -
  have f: "file_at [([''data''], Dir), ([''data'', ''a.bin''], File (replicate 1000 7))]
             ([''data''] @ [''a.bin'']) = Some (replicate 1000 7)"
    by (simp add: file_at_def lookup_def)
  have n: "(100 :: nat) < 2 ^ 63"
    by simp
  have s: "show_nat 100 = ''100''"
    by (simp add: show_nat.simps digit_char_def)
  show ?thesis
    using DownloadFile_open_ended_range_rejected [OF n f, of "Some 5" "\<lparr>status = 200, header = [], body = []\<rparr>"]
    by (simp add: s)
qed

text \<open>
  C8. For a stored file (of a size an \<^verbatim>\<open>int64\<close> holds) and a request that is never
  cancelled: with 2500 bytes, \<open>chunkIndex = 2\<close> and \<open>chunkSize = 1024\<close>, \<open>DownloadFileChunk\<close>
  answers 206 with \<^verbatim>\<open>Content-Range: bytes 2048-2499/2500\<close>, \<^verbatim>\<open>Content-Length: 452\<close> and the
  452 bytes from offset 2048 on. In general, when the end the source computes,
  \<open>chunkIndex * chunkSize + chunkSize - 1\<close> in 64-bit arithmetic, is not below the file size
  and the start is not negative, the end in \<^verbatim>\<open>Content-Range\<close> is the file size minus one,
  \<^verbatim>\<open>Content-Length\<close> is the file size minus the start, and the body is the file from the
  start on.
\<close>

theorem DownloadFileChunk_window:
  assumes "file_at fs (sp @ [name]) = Some content" and "length content < 2 ^ 63"
  shows "(length content = 2500 \<longrightarrow>
            DownloadFileChunk None c fs sp name 2 1024 =
              (c\<lparr>status := 206,
                 header := AList.update ''Content-Length'' ''452''
                             (AList.update ''Accept-Ranges'' ''bytes''
                                (AList.update ''Content-Range'' ''bytes 2048-2499/2500'' (header c))),
                 body := body c @ drop 2048 content\<rparr>, None)
            \<and> length (drop 2048 content) = 452)
       \<and> (int (length content) \<le> i64 (i64 (i64 (chunkIndex * chunkSize) + chunkSize) - 1)
            \<and> 0 \<le> i64 (chunkIndex * chunkSize) \<longrightarrow>
            DownloadFileChunk None c fs sp name chunkIndex chunkSize =
              (c\<lparr>status := 206,
                 header := AList.update ''Content-Length''
                             (show_int (int (length content) - i64 (chunkIndex * chunkSize)))
                             (AList.update ''Accept-Ranges'' ''bytes''
                                (AList.update ''Content-Range''
                                   (''bytes '' @ show_int (i64 (chunkIndex * chunkSize)) @ ''-''
                                      @ show_int (int (length content) - 1) @ ''/''
                                      @ show_int (int (length content)))
                                   (header c))),
                 body := body c @ drop (nat (i64 (chunkIndex * chunkSize))) content\<rparr>, None))"
proof -
  have gen: "DownloadFileChunk None c fs sp name ci cs =
              (c\<lparr>status := 206,
                 header := AList.update ''Content-Length''
                             (show_int (int (length content) - i64 (ci * cs)))
                             (AList.update ''Accept-Ranges'' ''bytes''
                                (AList.update ''Content-Range''
                                   (''bytes '' @ show_int (i64 (ci * cs)) @ ''-''
                                      @ show_int (int (length content) - 1) @ ''/''
                                      @ show_int (int (length content)))
                                   (header c))),
                 body := body c @ drop (nat (i64 (ci * cs))) content\<rparr>, None)"
    if h: "int (length content) \<le> i64 (i64 (i64 (ci * cs) + cs) - 1)" "0 \<le> i64 (ci * cs)"
    for ci cs
  proof -
    let ?start = "i64 (ci * cs)"
    let ?n = "int (length content)"
    have ub: "?start < 2 ^ 63"
      by (simp add: i64_def)
    have nb: "?n < 2 ^ 63"
      using assms(2) by (metis of_nat_less_iff of_nat_numeral of_nat_power)
    have e: "i64 (?n - 1) = ?n - 1"
      using nb by (intro i64_id) auto
    have l: "i64 (i64 (?n - 1 - ?start) + 1) = ?n - ?start"
    proof -
      have "i64 (?n - 1 - ?start) = ?n - 1 - ?start"
        using nb ub h(2) by (intro i64_id) auto
      moreover have "i64 (?n - 1 - ?start + 1) = ?n - ?start"
        using nb ub h(2) i64_id [of "?n - ?start"] by auto
      ultimately show ?thesis by simp
    qed
    show ?thesis
      using assms(1) h
      by (simp add: DownloadFileChunk_def file_at_Stat file_at_Open Let_def e l
          ctx_done_def ctx_next_def Seek_def copyWithCancel_live Header_Set_def WriteHeader_def
          StatusPartialContent_def)
  qed
  have s: "show_int 2048 = ''2048''" "show_int 2499 = ''2499''" "show_int 2500 = ''2500''"
    "show_int 452 = ''452''"
    by (simp_all add: show_int_def show_nat.simps digit_char_def)
  have i: "i64 2048 = 2048" "i64 (i64 (2048 + 1024) - 1) = 3071"
    by (simp_all add: i64_def)
  have inst: "length content = 2500 \<Longrightarrow>
            DownloadFileChunk None c fs sp name 2 1024 =
              (c\<lparr>status := 206,
                 header := AList.update ''Content-Length'' ''452''
                             (AList.update ''Accept-Ranges'' ''bytes''
                                (AList.update ''Content-Range'' ''bytes 2048-2499/2500'' (header c))),
                 body := body c @ drop 2048 content\<rparr>, None)"
    using gen [of 2 1024] by (simp add: i s i64_def)
  show ?thesis
    using gen inst by auto
qed

theorem DownloadFileChunk_window_witness:
  "DownloadFileChunk None \<lparr>status = 200, header = [], body = []\<rparr>
     [([''data''], Dir), ([''data'', ''b.bin''], File (replicate 2500 7))]
     [''data''] ''b.bin'' 2 1024 =
   (\<lparr>status = 206,
     header = [(''Content-Range'', ''bytes 2048-2499/2500''), (''Accept-Ranges'', ''bytes''),
               (''Content-Length'', ''452'')],
     body = replicate 452 7\<rparr>, None)
   \<and> DownloadFileChunk None \<lparr>status = 200, header = [], body = []\<rparr>
     [([''data''], Dir), ([''data'', ''b.bin''], File (replicate 2500 7))]
     [''data''] ''b.bin'' 1 2000 =
   (\<lparr>status = 206,
     header = [(''Content-Range'', ''bytes 2000-2499/2500''), (''Accept-Ranges'', ''bytes''),
               (''Content-Length'', ''500'')],
     body = replicate 500 7\<rparr>, None)"
proof -
  have f: "file_at [([''data''], Dir), ([''data'', ''b.bin''], File (replicate 2500 7))]
             ([''data''] @ [''b.bin'']) = Some (replicate 2500 7)"
    by (simp add: file_at_def lookup_def)
  have n: "length (replicate 2500 (7 :: byte)) < 2 ^ 63"
    by simp
  have s: "show_int 2000 = ''2000''" "show_int 2499 = ''2499''" "show_int 2500 = ''2500''"
    "show_int 500 = ''500''"
    by (simp_all add: show_int_def show_nat.simps digit_char_def)
  show ?thesis
    using DownloadFileChunk_window [OF f n, of "\<lparr>status = 200, header = [], body = []\<rparr>" 1 2000]
    by (simp add: i64_def s)
qed

subsection \<open>The file system\<close>

lemma lookup_update:
  "lookup (AList.update p v fs) q =
     (if q = [] then Some Dir else if q = p then Some v else lookup fs q)"
  by (simp add: lookup_def update_conv')

lemma lookup_delete:
  "lookup (AList.delete p fs) q =
     (if q = [] then Some Dir else if q = p then None else lookup fs q)"
  by (simp add: lookup_def delete_conv')

lemma map_of_filter_fst:
  "map_of (filter (\<lambda>(q, n). P q) fs) p = (if P p then map_of fs p else None)"
  by (induction fs) auto

lemma lookup_RemoveAll:
  "lookup (RemoveAll fs d) q =
     (if q = [] then Some Dir else if prefix d q then None else lookup fs q)"
  by (simp add: lookup_def RemoveAll_def map_of_filter_fst)

lemma lookup_root [simp]: "lookup fs [] = Some Dir"
  by (simp add: lookup_def)

lemma Mkdir_ok: "Mkdir fs p = (fs', None) \<Longrightarrow> fs' = AList.update p Dir fs \<and> lookup fs p = None"
  by (auto simp: Mkdir_def split: option.splits)

lemma Mkdir_err: "Mkdir fs p = (fs', Some e) \<Longrightarrow> fs' = fs"
  by (auto simp: Mkdir_def split: option.splits)

lemma MkdirAll_ok_dir: "MkdirAll fs p = (fs', None) \<Longrightarrow> lookup fs' p = Some Dir"
  by (subst (asm) MkdirAll.simps)
    (auto simp: lookup_update split: option.splits node.splits prod.splits if_splits
      dest!: Mkdir_ok)

lemma MkdirAll_idem: "lookup fs p = Some Dir \<Longrightarrow> MkdirAll fs p = (fs, None)"
  by (subst MkdirAll.simps) simp

lemma file_at_update_Dir:
  "lookup fs p = None \<Longrightarrow> file_at (AList.update p Dir fs) q = file_at fs q"
  by (auto simp: file_at_def lookup_update)

lemma MkdirAll_file_at: "file_at (fst (MkdirAll fs p)) q = file_at fs q"
proof (induction fs p rule: MkdirAll.induct)
  case (1 fs p)
  show ?case
  proof (cases "lookup fs p")
    case None
    obtain fs1 e1 where r: "MkdirAll fs (butlast p) = (fs1, e1)"
      by (cases "MkdirAll fs (butlast p)")
    have ih: "file_at fs1 q = file_at fs q"
      using 1 [OF None] r by simp
    show ?thesis
    proof (cases e1)
      case (Some e)
      then show ?thesis using None r ih by (subst MkdirAll.simps) simp
    next
      case n: None
      obtain fs2 e2 where m: "Mkdir fs1 p = (fs2, e2)"
        by (cases "Mkdir fs1 p")
      have "file_at fs2 q = file_at fs1 q"
      proof (cases e2)
        case None
        then show ?thesis using m file_at_update_Dir [of fs1 p q] by (auto dest!: Mkdir_ok)
      next
        case (Some e)
        then show ?thesis using m by (auto dest!: Mkdir_err)
      qed
      then show ?thesis
        using None r n m ih by (subst MkdirAll.simps) (auto split: option.splits)
    qed
  next
    case (Some nd)
    then show ?thesis by (subst MkdirAll.simps) (simp split: node.splits)
  qed
qed

lemma OpenFile_append_ok:
  "OpenFile_append fs p = (fs', None) \<Longrightarrow>
     p \<noteq> [] \<and> (\<forall>q. q \<noteq> p \<longrightarrow> lookup fs' q = lookup fs q) \<and>
     lookup fs' p = Some (File (case file_at fs p of None \<Rightarrow> [] | Some d \<Rightarrow> d))"
  by (auto simp: OpenFile_append_def file_at_def lookup_update split: option.splits node.splits)

lemma OpenFile_append_idem:
  "lookup fs p = Some (File d) \<Longrightarrow> OpenFile_append fs p = (fs, None)"
  by (simp add: OpenFile_append_def)

lemma append_file_File:
  "lookup fs p = Some (File d) \<Longrightarrow> append_file fs p bs = AList.update p (File (d @ bs)) fs"
  by (simp add: append_file_def)

subsection \<open>SaveFile\<close>

lemma resume_header_start:
  assumes "n < 2 ^ 63"
  shows "(case strings_Split (strings_TrimPrefix (''bytes='' @ show_nat n @ ''-'') ''bytes='') CHR ''-'' of
            [] \<Rightarrow> Inr 0
          | p0 # _ \<Rightarrow> ParseInt p0) = Inr (int n)"
proof -
  have "strings_TrimPrefix (''bytes='' @ show_nat n @ ''-'') ''bytes='' = show_nat n @ ''-''"
    by (simp add: strings_TrimPrefix_def)
  moreover have "strings_Split (show_nat n @ ''-'') CHR ''-'' = [show_nat n, []]"
    using Split_at_sep [of "CHR ''-''" "show_nat n" "[]"] show_nat_no_sign(1) [of n] by simp
  ultimately show ?thesis
    using assms by (simp add: ParseInt_show_nat)
qed

lemma SaveFile_plain:
  "SaveFile fs sp \<lparr>Filename = name, fh_Open = Inr bs\<rparr> [] =
     (case MkdirAll fs sp of
        (fs1, Some err) \<Rightarrow> (fs1, Some err)
      | (fs1, None) \<Rightarrow>
          (case OpenFile_append fs1 (sp @ [name]) of
             (fs2, Some err) \<Rightarrow> (fs2, Some err)
           | (fs2, None) \<Rightarrow> (append_file fs2 (sp @ [name]) bs, None)))"
  by (simp add: SaveFile_def write_append_def split: prod.splits option.splits)

lemma SaveFile_resume:
  assumes "n < 2 ^ 63"
  shows "SaveFile fs sp \<lparr>Filename = name, fh_Open = Inr bs\<rparr> (''bytes='' @ show_nat n @ ''-'') =
     (case MkdirAll fs sp of
        (fs1, Some err) \<Rightarrow> (fs1, Some err)
      | (fs1, None) \<Rightarrow>
          (case OpenFile_append fs1 (sp @ [name]) of
             (fs2, Some err) \<Rightarrow> (fs2, Some err)
           | (fs2, None) \<Rightarrow> (append_file fs2 (sp @ [name]) bs, None)))"
  unfolding SaveFile_def Let_def
  using resume_header_start [OF assms]
  by (simp add: write_append_def split: prod.splits option.splits)

text \<open>
  C2. For every content shorter than \<open>2 ^ 63\<close> bytes and every offset \<open>off\<close> up to its
  length, on every disk: \<open>SaveFile\<close> with the first \<open>off\<close> bytes and no range header,
  followed (when it succeeds) by \<open>SaveFile\<close> with the remaining bytes and the header
  \<^verbatim>\<open>bytes=<off>-\<close>, ends in the same disk and the same result as one \<open>SaveFile\<close> with the
  whole content; and when that one succeeds, the destination holds what it held before
  followed by the content.
\<close>

theorem SaveFile_resume_equals_single_upload:
  assumes "off \<le> length content" and "length content < 2 ^ 63"
  shows "(case SaveFile fs sp \<lparr>Filename = name, fh_Open = Inr (take off content)\<rparr> [] of
            (fs1, Some err) \<Rightarrow> (fs1, Some err)
          | (fs1, None) \<Rightarrow>
              SaveFile fs1 sp \<lparr>Filename = name, fh_Open = Inr (drop off content)\<rparr>
                (''bytes='' @ show_nat off @ ''-''))
         = SaveFile fs sp \<lparr>Filename = name, fh_Open = Inr content\<rparr> []
       \<and> (\<forall>fs'. SaveFile fs sp \<lparr>Filename = name, fh_Open = Inr content\<rparr> [] = (fs', None) \<longrightarrow>
             file_at fs' (sp @ [name]) =
               Some ((case file_at fs (sp @ [name]) of None \<Rightarrow> [] | Some old \<Rightarrow> old) @ content))"
proof -
  let ?dest = "sp @ [name]"
  have off: "off < 2 ^ 63"
    using assms by simp
  obtain fs1 e1 where mk: "MkdirAll fs sp = (fs1, e1)"
    by (cases "MkdirAll fs sp")
  obtain fs2 e2 where op: "OpenFile_append fs1 ?dest = (fs2, e2)"
    by (cases "OpenFile_append fs1 ?dest")
  have old: "file_at fs1 ?dest = file_at fs ?dest"
    using MkdirAll_file_at [of fs sp ?dest] mk by simp
  show ?thesis
  proof (cases e1)
    case (Some e)
    then show ?thesis using mk by (simp add: SaveFile_plain)
  next
    case n1: None
    show ?thesis
    proof (cases e2)
      case (Some e)
      then show ?thesis using mk op n1 by (simp add: SaveFile_plain)
    next
      case n2: None
      define d where "d = (case file_at fs ?dest of None \<Rightarrow> [] | Some old \<Rightarrow> old)"
      have f2: "lookup fs2 ?dest = Some (File d)"
        and o2: "\<And>q. q \<noteq> ?dest \<Longrightarrow> lookup fs2 q = lookup fs1 q"
        using OpenFile_append_ok [of fs1 ?dest fs2] op n2 old by (simp_all add: d_def)
      have single: "SaveFile fs sp \<lparr>Filename = name, fh_Open = Inr content\<rparr> [] =
                      (AList.update ?dest (File (d @ content)) fs2, None)"
        using mk op n1 n2 f2 by (simp add: SaveFile_plain append_file_File)
      let ?fsA = "AList.update ?dest (File (d @ take off content)) fs2"
      have first: "SaveFile fs sp \<lparr>Filename = name, fh_Open = Inr (take off content)\<rparr> [] =
                     (?fsA, None)"
        using mk op n1 n2 f2 by (simp add: SaveFile_plain append_file_File)
      have dirA: "lookup ?fsA sp = Some Dir"
        using MkdirAll_ok_dir [of fs sp fs1] mk n1 o2 [of sp] by (simp add: lookup_update)
      have fileA: "lookup ?fsA ?dest = Some (File (d @ take off content))"
        by (simp add: lookup_update)
      have second: "SaveFile ?fsA sp \<lparr>Filename = name, fh_Open = Inr (drop off content)\<rparr>
                      (''bytes='' @ show_nat off @ ''-'') =
                    (AList.update ?dest (File (d @ content)) fs2, None)"
        unfolding SaveFile_resume [OF off]
        using MkdirAll_idem [OF dirA] OpenFile_append_idem [OF fileA]
        by (simp add: append_file_File [OF fileA])
      have "file_at (AList.update ?dest (File (d @ content)) fs2) ?dest = Some (d @ content)"
        by (simp add: file_at_def lookup_update)
      then show ?thesis
        using single first second by (simp add: d_def)
    qed
  qed
qed

theorem SaveFile_resume_equals_single_upload_witness:
  "SaveFile [] [''data''] \<lparr>Filename = ''a.bin'', fh_Open = Inr [1, 2]\<rparr> [] =
     ([([''data''], Dir), ([''data'', ''a.bin''], File [1, 2])], None) \<and>
   SaveFile [([''data''], Dir), ([''data'', ''a.bin''], File [1, 2])] [''data'']
     \<lparr>Filename = ''a.bin'', fh_Open = Inr [3, 4, 5]\<rparr> ''bytes=2-'' =
     SaveFile [] [''data''] \<lparr>Filename = ''a.bin'', fh_Open = Inr [1, 2, 3, 4, 5]\<rparr> [] \<and>
   SaveFile [] [''data''] \<lparr>Filename = ''a.bin'', fh_Open = Inr [1, 2, 3, 4, 5]\<rparr> [] =
     ([([''data''], Dir), ([''data'', ''a.bin''], File [1, 2, 3, 4, 5])], None)"
proof -
  have m: "MkdirAll [] [''data''] = ([([''data''], Dir)], None)"
    by (simp add: MkdirAll.simps [of _ "[''data'']"] MkdirAll.simps [of _ "[]"] lookup_def
        Mkdir_def parent_error_def)
  have first: "SaveFile [] [''data''] \<lparr>Filename = ''a.bin'', fh_Open = Inr [1, 2]\<rparr> [] =
     ([([''data''], Dir), ([''data'', ''a.bin''], File [1, 2])], None)"
    by (simp add: SaveFile_plain m OpenFile_append_def lookup_def parent_error_def
        append_file_def)
  have whole: "SaveFile [] [''data''] \<lparr>Filename = ''a.bin'', fh_Open = Inr [1, 2, 3, 4, 5]\<rparr> [] =
     ([([''data''], Dir), ([''data'', ''a.bin''], File [1, 2, 3, 4, 5])], None)"
    by (simp add: SaveFile_plain m OpenFile_append_def lookup_def parent_error_def
        append_file_def)
  have s: "show_nat 2 = ''2''"
    by (simp add: show_nat.simps digit_char_def)
  have "(2 :: nat) \<le> length [1, 2, 3, 4, 5 :: byte]" "length [1, 2, 3, 4, 5 :: byte] < 2 ^ 63"
    by simp_all
  from SaveFile_resume_equals_single_upload
    [OF this, where fs = "[]" and sp = "[''data'']" and name = "''a.bin''"]
  show ?thesis
    using first whole by (simp add: s)
qed

subsection \<open>Chunked upload and merge\<close>

lemma Create_ok:
  "Create fs p = (fs', None) \<Longrightarrow> fs' = AList.update p (File []) fs \<and> p \<noteq> []"
  by (auto simp: Create_def split: option.splits node.splits)

lemma file_at_update_File:
  "p \<noteq> [] \<Longrightarrow> file_at (AList.update p (File d) fs) q = (if q = p then Some d else file_at fs q)"
  by (simp add: file_at_def lookup_update)

lemma append_file_lookup:
  "lookup (append_file fs p bs) q =
     (if q = p then (case lookup fs p of Some (File d) \<Rightarrow> Some (File (d @ bs)) | r \<Rightarrow> r)
      else lookup fs q)"
  by (auto simp: append_file_def lookup_update split: option.splits node.splits)

lemma persist_ok:
  assumes "SaveFileChunk_persist fs sp ci file = (fs3, None)"
  shows "\<exists>bs. fh_Open file = Inr bs \<and> file_at fs3 (chunk_path sp ci) = Some bs \<and>
           (\<forall>q. q \<noteq> chunk_path sp ci \<longrightarrow> file_at fs3 q = file_at fs q)"
proof -
  let ?cp = "chunk_path sp ci"
  from assms obtain fs1 bs fs2 where
    mk: "MkdirAll fs (chunk_dir sp ci) = (fs1, None)" and
    op: "fh_Open file = Inr bs" and
    cr: "Create fs1 ?cp = (fs2, None)" and
    f3: "fs3 = append_file fs2 ?cp bs"
    by (auto simp: SaveFileChunk_persist_def split: prod.splits option.splits sum.splits)
  have u: "fs2 = AList.update ?cp (File []) fs1" "?cp \<noteq> []"
    using Create_ok [OF cr] by simp_all
  have a: "fs3 = AList.update ?cp (File bs) fs1"
    using f3 u by (simp add: append_file_def lookup_update)
  have m: "\<And>q. file_at fs1 q = file_at fs q"
    using MkdirAll_file_at [of fs "chunk_dir sp ci"] mk by simp
  show ?thesis
    using op a u(2) m by (simp add: file_at_update_File)
qed

text \<open>
  C10. When the chunk index is not the total minus one and \<open>SaveFileChunk\<close> succeeds, the part
  was readable, the staging file \<^verbatim>\<open><root>/chunks/<fileName>/<fileName>_<chunkIndex>\<close> holds
  its bytes, every other path holds the file it held before or none as before (the final
  destination and every other chunk file among them), and the MD5 cache is the same.
\<close>

theorem SaveFileChunk_not_last_frame:
  assumes "ChunkIndex ci \<noteq> i64 (TotalChunk ci - 1)"
    and "SaveFileChunk_world md5hex glob_meta w sp ci file = (w', None)"
  shows "\<exists>bs. fh_Open file = Inr bs \<and>
           file_at (disk w') (sp @ [''chunks'', FileName ci, FileName ci @ ''_'' @ show_int (ChunkIndex ci)])
             = Some bs \<and>
           (\<forall>q. q \<noteq> sp @ [''chunks'', FileName ci, FileName ci @ ''_'' @ show_int (ChunkIndex ci)]
                \<longrightarrow> file_at (disk w') q = file_at (disk w) q) \<and>
           md5Cache w' = md5Cache w"
proof -
  obtain fs3 where p: "SaveFileChunk_persist (disk w) sp ci file = (fs3, None)"
    and w': "w' = w\<lparr>disk := fs3\<rparr>"
    using assms
    by (auto simp: SaveFileChunk_world_def SaveFileChunk_def split: prod.splits option.splits)
  have cp: "chunk_path sp ci = sp @ [''chunks'', FileName ci, FileName ci @ ''_'' @ show_int (ChunkIndex ci)]"
    by (simp add: chunk_path_def chunk_dir_def)
  show ?thesis
    using persist_ok [OF p] w' unfolding cp by simp
qed

lemma empty_disk_MkdirAll: "MkdirAll [] [''data'', ''chunks'', ''a.bin''] =
   ([([''data''], Dir), ([''data'', ''chunks''], Dir), ([''data'', ''chunks'', ''a.bin''], Dir)], None)"
  by (simp add: MkdirAll.simps lookup_def Mkdir_def parent_error_def)

theorem SaveFileChunk_not_last_frame_witness:
  "SaveFileChunk_world (\<lambda>bs. ''d41d8cd98f00b204e9800998ecf8427e'') (\<lambda>fs d i. Inr [])
     \<lparr>disk = [], md5Cache = Map.empty\<rparr> [''data'']
     \<lparr>FileName = ''a.bin'', TotalSize = 5, ChunkIndex = 0, ChunkSize = 3, TotalChunk = 2,
      ci_MD5 = ''7cfdd07889b3295d6a550914ab35e068''\<rparr>
     \<lparr>Filename = ''blob'', fh_Open = Inr [1, 2, 3]\<rparr> =
   (\<lparr>disk = [([''data''], Dir), ([''data'', ''chunks''], Dir),
             ([''data'', ''chunks'', ''a.bin''], Dir),
             ([''data'', ''chunks'', ''a.bin'', ''a.bin_0''], File [1, 2, 3])],
     md5Cache = Map.empty\<rparr>, None)
   \<and> file_at [([''data''], Dir), ([''data'', ''chunks''], Dir),
             ([''data'', ''chunks'', ''a.bin''], Dir),
             ([''data'', ''chunks'', ''a.bin'', ''a.bin_0''], File [1, 2, 3])]
         [''data'', ''a.bin''] = file_at [] [''data'', ''a.bin'']"
proof -
  have ev: "SaveFileChunk_world (\<lambda>bs. ''d41d8cd98f00b204e9800998ecf8427e'') (\<lambda>fs d i. Inr [])
     \<lparr>disk = [], md5Cache = Map.empty\<rparr> [''data'']
     \<lparr>FileName = ''a.bin'', TotalSize = 5, ChunkIndex = 0, ChunkSize = 3, TotalChunk = 2,
      ci_MD5 = ''7cfdd07889b3295d6a550914ab35e068''\<rparr>
     \<lparr>Filename = ''blob'', fh_Open = Inr [1, 2, 3]\<rparr> =
   (\<lparr>disk = [([''data''], Dir), ([''data'', ''chunks''], Dir),
             ([''data'', ''chunks'', ''a.bin''], Dir),
             ([''data'', ''chunks'', ''a.bin'', ''a.bin_0''], File [1, 2, 3])],
     md5Cache = Map.empty\<rparr>, None)"
    by (simp add: SaveFileChunk_world_def SaveFileChunk_def SaveFileChunk_persist_def
        chunk_dir_def chunk_path_def empty_disk_MkdirAll Create_def lookup_def parent_error_def
        append_file_def show_int_def show_nat.simps digit_char_def i64_def)
  have ne: "ChunkIndex \<lparr>FileName = ''a.bin'', TotalSize = 5, ChunkIndex = 0, ChunkSize = 3,
              TotalChunk = 2, ci_MD5 = ''7cfdd07889b3295d6a550914ab35e068''\<rparr> \<noteq>
            i64 (TotalChunk \<lparr>FileName = ''a.bin'', TotalSize = 5, ChunkIndex = 0, ChunkSize = 3,
              TotalChunk = 2, ci_MD5 = ''7cfdd07889b3295d6a550914ab35e068''\<rparr> - 1)"
    by (simp add: i64_def)
  from SaveFileChunk_not_last_frame [OF ne ev] show ?thesis
    using ev by simp
qed

lemma merge_loop_target:
  "lookup fs t = Some (File d) \<Longrightarrow>
     \<exists>d'. lookup (fst (merge_loop G fs cd t i n)) t = Some (File d')"
proof (induction G fs cd t i n arbitrary: d rule: merge_loop.induct)
  case (1 G fs cd t i n)
  show ?case
  proof (cases "i < n")
    case False
    then show ?thesis using 1(2) by (subst merge_loop.simps) simp
  next
    case True
    show ?thesis
    proof (cases "Glob_chunk G fs cd i")
      case (Inl e)
      then show ?thesis using True 1(2) by (subst merge_loop.simps) simp
    next
      case (Inr ms)
      show ?thesis
      proof (cases ms)
        case Nil
        then show ?thesis using True Inr 1(2) by (subst merge_loop.simps) simp
      next
        case (Cons m rest)
        show ?thesis
        proof (cases "Open fs m")
          case (Inl e)
          then show ?thesis using True Inr Cons 1(2) by (subst merge_loop.simps) simp
        next
          case o: (Inr f)
          show ?thesis
          proof (cases "read_all f")
            case (Inl e)
            then show ?thesis using True Inr Cons o 1(2) by (subst merge_loop.simps) simp
          next
            case r: (Inr bs)
            have "lookup (append_file fs t bs) t = Some (File (d @ bs))"
              using 1(2) by (simp add: append_file_lookup)
            from 1(1) [OF True Inr Cons o r this]
            show ?thesis using True Inr Cons o r by (subst merge_loop.simps) simp
          qed
        qed
      qed
    qed
  qed
qed

lemma mergeFileChunks_ok_target:
  assumes "mergeFileChunks G fs cd t n = (fs', None)" and "\<not> prefix cd t"
  shows "\<exists>d. file_at fs' t = Some d"
proof -
  from assms(1) obtain fs1 fs2 where
    cr: "Create fs t = (fs1, None)" and
    lp: "merge_loop G fs1 cd t 0 n = (fs2, None)" and
    f': "fs' = RemoveAll fs2 cd"
    by (auto simp: mergeFileChunks_def split: prod.splits option.splits)
  have t: "t \<noteq> []" "lookup fs1 t = Some (File [])"
    using Create_ok [OF cr] by (simp_all add: lookup_update)
  obtain d where "lookup fs2 t = Some (File d)"
    using merge_loop_target [OF t(2), of G cd 0 n] lp by auto
  then show ?thesis
    using f' t(1) assms(2) by (simp add: file_at_def lookup_RemoveAll)
qed

lemma dest_outside_chunk_dir: "\<not> prefix (chunk_dir sp ci) (sp @ [FileName ci])"
  by (auto simp: chunk_dir_def prefix_def)

lemma dir_names_keys:
  "set (map last (filter (\<lambda>p. p \<noteq> [] \<and> butlast p = d) (map fst fs))) =
     {n. lookup fs (d @ [n]) \<noteq> None}" (is "?L = ?R")
  proof
    show "?L \<subseteq> ?R"
    proof
      fix n assume "n \<in> ?L"
      then obtain p where p: "p \<in> fst ` set fs" "p \<noteq> []" "butlast p = d" "n = last p"
        by auto
      then have "p = d @ [n]"
        using append_butlast_last_id [of p] by simp
      moreover have "map_of fs p \<noteq> None"
        using p(1) by (simp add: map_of_eq_None_iff)
      ultimately show "n \<in> ?R"
        by (simp add: lookup_def)
    qed
    show "?R \<subseteq> ?L"
    proof
      fix n assume "n \<in> ?R"
      then have "map_of fs (d @ [n]) \<noteq> None"
        by (simp add: lookup_def)
      then have "d @ [n] \<in> set (map fst fs)"
        by (simp add: map_of_eq_None_iff)
      then have "d @ [n] \<in> set (filter (\<lambda>p. p \<noteq> [] \<and> butlast p = d) (map fst fs))"
        by simp
      then have "last (d @ [n]) \<in> last ` set (filter (\<lambda>p. p \<noteq> [] \<and> butlast p = d) (map fst fs))"
        by (rule imageI)
      then show "n \<in> ?L" by simp
    qed
  qed

lemma dir_names_set:
  "set (dir_names fs d) = (if lookup fs d = Some Dir then {n. lookup fs (d @ [n]) \<noteq> None} else {})"
  using dir_names_keys [of d fs] by (simp add: dir_names_def)

lemma dir_names_char:
  "dir_names fs d =
     (if lookup fs d = Some Dir then sorted_list_of_set {n. lookup fs (d @ [n]) \<noteq> None} else [])"
proof -
  let ?xs = "map last (filter (\<lambda>p. p \<noteq> [] \<and> butlast p = d) (map fst fs))"
  have "sort (remdups ?xs) = sorted_list_of_set (set ?xs)"
    by (simp only: sorted_list_of_set_sort_remdups)
  also have "\<dots> = sorted_list_of_set {n. lookup fs (d @ [n]) \<noteq> None}"
    by (simp only: dir_names_keys)
  finally show ?thesis
    by (simp only: dir_names_def)
qed

lemma dir_names_frame:
  assumes "\<And>p. prefix d p \<Longrightarrow> lookup fs' p = lookup fs p"
  shows "dir_names fs' d = dir_names fs d"
  using assms by (simp add: dir_names_char)

lemma Glob_chunk_frame:
  assumes "\<not> list_ex has_meta cd" and "\<And>p. prefix cd p \<Longrightarrow> lookup fs' p = lookup fs p"
  shows "Glob_chunk G fs' cd j = Glob_chunk G fs cd j"
  using assms(1) dir_names_frame [of cd fs' fs, OF assms(2)] by (simp add: Glob_chunk_def)

lemma Glob_chunk_under:
  "\<not> list_ex has_meta cd \<Longrightarrow> Glob_chunk G fs cd j = Inr ms \<Longrightarrow> m \<in> set ms \<Longrightarrow> prefix cd m"
  by (auto simp: Glob_chunk_def)

lemma found_chunk_frame:
  assumes "\<not> list_ex has_meta cd" and "\<And>p. prefix cd p \<Longrightarrow> lookup fs' p = lookup fs p"
  shows "found_chunk G fs' cd j = found_chunk G fs cd j"
proof -
  have g: "Glob_chunk G fs' cd j = Glob_chunk G fs cd j"
    using Glob_chunk_frame [OF assms] by simp
  show ?thesis
  proof (cases "Glob_chunk G fs cd j")
    case (Inl e)
    then show ?thesis using g by (simp add: found_chunk_def)
  next
    case (Inr ms)
    show ?thesis
    proof (cases ms)
      case Nil
      then show ?thesis using g Inr by (simp add: found_chunk_def)
    next
      case (Cons m rest)
      then have "prefix cd m"
        using Glob_chunk_under [OF assms(1) Inr, of m] by simp
      then have "file_at fs' m = file_at fs m"
        using assms(2) by (simp add: file_at_def)
      then show ?thesis using g Inr Cons by (simp add: found_chunk_def)
    qed
  qed
qed

lemma Glob_chunk_none:
  assumes "\<not> list_ex has_meta cd"
    and "\<And>n. match_star (''_'' @ show_int i) n \<Longrightarrow> lookup fs (cd @ [n]) = None"
  shows "Glob_chunk G fs cd i = Inr []"
proof -
  have "filter (match_star (''_'' @ show_int i)) (dir_names fs cd) = []"
  proof (cases "lookup fs cd = Some Dir")
    case False
    then show ?thesis by (simp add: dir_names_def)
  next
    case True
    have "\<And>n. n \<in> set (dir_names fs cd) \<Longrightarrow> lookup fs (cd @ [n]) \<noteq> None"
      using dir_names_set [of fs cd] True by auto
    then have "\<And>n. n \<in> set (dir_names fs cd) \<Longrightarrow> \<not> match_star (''_'' @ show_int i) n"
      using assms(2) by blast
    then show ?thesis
      by (simp add: filter_empty_conv)
  qed
  then show ?thesis using assms(1) by (simp add: Glob_chunk_def)
qed

lemma merge_loop_step:
  assumes "found_chunk G fs cd k = Some bs" and "k < n"
  shows "merge_loop G fs cd t k n = merge_loop G (append_file fs t bs) cd t (k + 1) n"
proof -
  from assms(1) obtain m rest where g: "Glob_chunk G fs cd k = Inr (m # rest)"
    and f: "file_at fs m = Some bs"
    by (auto simp: found_chunk_def split: sum.splits list.splits)
  have "Open fs m = Inr (File bs)"
    using f by (auto simp: file_at_def Open_def split: option.splits node.splits)
  then show ?thesis
    using assms(2) g by (subst merge_loop.simps) (simp add: read_all_def)
qed

lemma merge_loop_run:
  assumes nm: "\<not> list_ex has_meta cd" and out: "\<not> prefix cd t"
  shows "lookup fs t = Some (File acc) \<Longrightarrow> k \<le> i \<Longrightarrow> i \<le> n \<Longrightarrow>
     (\<forall>j. k \<le> j \<and> j < i \<longrightarrow> found_chunk G fs cd j = Some (chunks j)) \<Longrightarrow>
     \<exists>fs'. merge_loop G fs cd t k n = merge_loop G fs' cd t i n \<and>
           lookup fs' t = Some (File (acc @ concat (map chunks [k..i - 1]))) \<and>
           (\<forall>p. p \<noteq> t \<longrightarrow> lookup fs' p = lookup fs p)"
proof (induction "nat (i - k)" arbitrary: fs acc k)
  case 0
  then have "k = i" by simp
  then show ?case using 0 by (intro exI [of _ fs]) simp
next
  case (Suc x)
  then have lt: "k < i" by linarith
  have fk: "found_chunk G fs cd k = Some (chunks k)"
    using Suc.prems(4) lt by simp
  let ?fs1 = "append_file fs t (chunks k)"
  have step: "merge_loop G fs cd t k n = merge_loop G ?fs1 cd t (k + 1) n"
    using merge_loop_step [OF fk] lt Suc.prems(3) by simp
  have t1: "lookup ?fs1 t = Some (File (acc @ chunks k))"
    using Suc.prems(1) by (simp add: append_file_lookup)
  have o1: "\<And>p. p \<noteq> t \<Longrightarrow> lookup ?fs1 p = lookup fs p"
    by (simp add: append_file_lookup)
  have u1: "\<And>p. prefix cd p \<Longrightarrow> lookup ?fs1 p = lookup fs p"
    using o1 out by auto
  have f1: "\<forall>j. k + 1 \<le> j \<and> j < i \<longrightarrow> found_chunk G ?fs1 cd j = Some (chunks j)"
    using Suc.prems(4) found_chunk_frame [OF nm u1] by simp
  have x: "x = nat (i - (k + 1))"
    using Suc.hyps(2) by linarith
  have le: "k + 1 \<le> i"
    using lt by simp
  from Suc.hyps(1) [OF x t1 le Suc.prems(3) f1]
  obtain fs' where r: "merge_loop G ?fs1 cd t (k + 1) n = merge_loop G fs' cd t i n"
    "lookup fs' t = Some (File ((acc @ chunks k) @ concat (map chunks [k + 1..i - 1])))"
    "\<forall>p. p \<noteq> t \<longrightarrow> lookup fs' p = lookup ?fs1 p"
    by blast
  have "[k..i - 1] = k # [k + 1..i - 1]"
    using lt by (simp add: upto_rec1)
  then have "acc @ concat (map chunks [k..i - 1]) =
             (acc @ chunks k) @ concat (map chunks [k + 1..i - 1])"
    by simp
  then show ?case
    using step r o1 by (intro exI [of _ fs']) simp
qed

text \<open>
  The missing chunk on a staging directory whose path has no pattern character, with a
  destination outside it that can be created: when the merge finds the data \<open>chunks j\<close> for
  every index \<open>j\<close> below \<open>i\<close>, \<open>i\<close> is below the total, and no entry of the staging directory
  has a name ending in \<^verbatim>\<open>_<i>\<close>, the merge returns \<open>ChunkNotFound i\<close>, the destination exists
  and holds the chunks \<open>0\<close> to \<open>i - 1\<close> in order, and every path in the staging directory
  is as it was.
\<close>

theorem mergeFileChunks_missing_chunk:
  assumes "\<not> list_ex has_meta chunkDir" and "\<not> prefix chunkDir targetFile"
    and "snd (Create fs targetFile) = None"
    and "0 \<le> i" and "i < totalChunk"
    and "\<forall>j. 0 \<le> j \<and> j < i \<longrightarrow> found_chunk glob_meta fs chunkDir j = Some (chunks j)"
    and "\<forall>n. match_star (''_'' @ show_int i) n \<longrightarrow> lookup fs (chunkDir @ [n]) = None"
  shows "\<exists>fs'. mergeFileChunks glob_meta fs chunkDir targetFile totalChunk =
                 (fs', Some (ChunkNotFound i)) \<and>
               file_at fs' targetFile = Some (concat (map chunks [0..i - 1])) \<and>
               (\<forall>p. prefix chunkDir p \<longrightarrow> lookup fs' p = lookup fs p)"
proof -
  obtain fs1 where cr: "Create fs targetFile = (fs1, None)"
    using assms(3) by (cases "Create fs targetFile") auto
  have u: "fs1 = AList.update targetFile (File []) fs" "targetFile \<noteq> []"
    using Create_ok [OF cr] by simp_all
  have t1: "lookup fs1 targetFile = Some (File [])"
    using u by (simp add: lookup_update)
  have o1: "\<And>p. p \<noteq> targetFile \<Longrightarrow> lookup fs1 p = lookup fs p"
    using u by (simp add: lookup_update)
  have u1: "\<And>p. prefix chunkDir p \<Longrightarrow> lookup fs1 p = lookup fs p"
    using o1 assms(2) by auto
  have f1: "\<forall>j. 0 \<le> j \<and> j < i \<longrightarrow> found_chunk glob_meta fs1 chunkDir j = Some (chunks j)"
    using assms(6) found_chunk_frame [OF assms(1) u1] by simp
  have le: "i \<le> totalChunk"
    using assms(5) by simp
  from merge_loop_run [OF assms(1,2) t1 assms(4) le f1]
  obtain fs' where r:
    "merge_loop glob_meta fs1 chunkDir targetFile 0 totalChunk =
       merge_loop glob_meta fs' chunkDir targetFile i totalChunk"
    "lookup fs' targetFile = Some (File ([] @ concat (map chunks [0..i - 1])))"
    "\<forall>p. p \<noteq> targetFile \<longrightarrow> lookup fs' p = lookup fs1 p"
    by blast
  have u': "\<And>p. prefix chunkDir p \<Longrightarrow> lookup fs' p = lookup fs p"
    using r(3) o1 assms(2) by auto
  have "Glob_chunk glob_meta fs chunkDir i = Inr []"
    using Glob_chunk_none [OF assms(1)] assms(7) by simp
  then have "Glob_chunk glob_meta fs' chunkDir i = Inr []"
    using Glob_chunk_frame [OF assms(1) u'] by simp
  then have "merge_loop glob_meta fs' chunkDir targetFile i totalChunk = (fs', Some (ChunkNotFound i))"
    using assms(5) by (subst merge_loop.simps) simp
  then have "mergeFileChunks glob_meta fs chunkDir targetFile totalChunk =
               (fs', Some (ChunkNotFound i))"
    using cr r(1) by (simp add: mergeFileChunks_def)
  moreover have "file_at fs' targetFile = Some (concat (map chunks [0..i - 1]))"
    using r(2) by (simp add: file_at_def)
  ultimately show ?thesis
    using u' by blast
qed

theorem mergeFileChunks_missing_chunk_witness:
  "\<exists>fs'. mergeFileChunks no_glob staged_one [''data'', ''chunks'', ''a.bin''] [''data'', ''a.bin''] 3 =
           (fs', Some (ChunkNotFound 1)) \<and>
         file_at fs' [''data'', ''a.bin''] = Some [1, 2, 3] \<and>
         (\<forall>p. prefix [''data'', ''chunks'', ''a.bin''] p \<longrightarrow> lookup fs' p = lookup staged_one p)"
proof -
  have 1: "\<not> list_ex has_meta [''data'', ''chunks'', ''a.bin'']"
    by (simp add: has_meta_def)
  have 2: "\<not> prefix [''data'', ''chunks'', ''a.bin''] [''data'', ''a.bin'']"
    by simp
  have 3: "snd (Create staged_one [''data'', ''a.bin'']) = None"
    by (simp add: Create_def lookup_def parent_error_def)
  have 6: "\<forall>j. 0 \<le> j \<and> j < 1 \<longrightarrow>
             found_chunk no_glob staged_one [''data'', ''chunks'', ''a.bin''] j =
               Some ((\<lambda>j. if j = 0 then [1, 2, 3] else []) j)"
  proof (intro allI impI)
    fix j :: int assume "0 \<le> j \<and> j < 1"
    then have "j = 0" by simp
    then show "found_chunk no_glob staged_one [''data'', ''chunks'', ''a.bin''] j =
               Some ((\<lambda>j. if j = 0 then [1, 2, 3] else []) j)"
      by (simp add: found_chunk_def Glob_chunk_def has_meta_def dir_names_def lookup_def
          match_star_def show_int_def show_nat.simps digit_char_def file_at_def)
  qed
  have 7: "\<forall>n. match_star (''_'' @ show_int 1) n \<longrightarrow>
             lookup staged_one ([''data'', ''chunks'', ''a.bin''] @ [n]) = None"
    by (auto simp: lookup_def match_star_def show_int_def show_nat.simps digit_char_def)
  have c: "concat (map (\<lambda>j. if j = 0 then [1, 2, 3] else []) [0..1 - 1]) = [1, 2, 3 :: byte]"
    by (simp add: upto_rec1)
  from mergeFileChunks_missing_chunk [OF 1 2 3 _ _ 6 7, of 3]
  show ?thesis
    unfolding c by simp
qed

text \<open>
  C7 fails on the code when the file name holds a pattern character. The staging directory
  is named after the file, and \<open>mergeFileChunks\<close> hands the joined path to \<^verbatim>\<open>filepath.Glob\<close>,
  which reads the directory part as a pattern too: for the file name \<^verbatim>\<open>a[1].bin\<close> the part
  \<^verbatim>\<open>a[1].bin\<close> matches the name \<^verbatim>\<open>a1.bin\<close> only, so no staged chunk is found, for any
  index. With a staging directory whose path holds a pattern character, a destination outside
  it that can be created, a chunk file staged in the directory and no match from
  \<^verbatim>\<open>filepath.Glob\<close> for index 0, the merge of one chunk or more returns \<open>ChunkNotFound 0\<close>,
  whichever chunk is the missing one; the destination is created and empty, and the staged
  chunk file is as it was, not appended.
\<close>

theorem mergeFileChunks_pattern_directory:
  assumes "list_ex has_meta chunkDir" and "\<not> prefix chunkDir targetFile"
    and "Create fs targetFile = (fs1, None)"
    and "glob_meta fs1 chunkDir 0 = Inr []"
    and "0 < totalChunk"
    and "file_at fs (chunkDir @ [c0]) = Some bs"
  shows "mergeFileChunks glob_meta fs chunkDir targetFile totalChunk =
           (fs1, Some (ChunkNotFound 0)) \<and>
         file_at fs1 targetFile = Some [] \<and>
         file_at fs1 (chunkDir @ [c0]) = Some bs"
proof -
  have u: "fs1 = AList.update targetFile (File []) fs" "targetFile \<noteq> []"
    using Create_ok [OF assms(3)] by simp_all
  have "Glob_chunk glob_meta fs1 chunkDir 0 = Inr []"
    using assms(1,4) by (simp add: Glob_chunk_def)
  then have "merge_loop glob_meta fs1 chunkDir targetFile 0 totalChunk =
               (fs1, Some (ChunkNotFound 0))"
    using assms(5) by (subst merge_loop.simps) simp
  then have "mergeFileChunks glob_meta fs chunkDir targetFile totalChunk =
               (fs1, Some (ChunkNotFound 0))"
    using assms(3) by (simp add: mergeFileChunks_def)
  moreover have "file_at fs1 targetFile = Some []"
    using u by (simp add: file_at_update_File)
  moreover have "chunkDir @ [c0] \<noteq> targetFile"
    using assms(2) by auto
  then have "file_at fs1 (chunkDir @ [c0]) = Some bs"
    using u assms(6) by (simp add: file_at_update_File)
  ultimately show ?thesis
    by simp
qed

theorem mergeFileChunks_pattern_directory_witness:
  "mergeFileChunks no_glob staged_pattern [''data'', ''chunks'', ''a[1].bin'']
     [''data'', ''a[1].bin''] 3 =
     (AList.update [''data'', ''a[1].bin''] (File []) staged_pattern, Some (ChunkNotFound 0)) \<and>
   file_at (AList.update [''data'', ''a[1].bin''] (File []) staged_pattern)
     [''data'', ''a[1].bin''] = Some [] \<and>
   file_at (AList.update [''data'', ''a[1].bin''] (File []) staged_pattern)
     [''data'', ''chunks'', ''a[1].bin'', ''a[1].bin_0''] = Some [1, 2, 3] \<and>
   file_at staged_pattern [''data'', ''chunks'', ''a[1].bin'', ''a[1].bin_1''] = None"
proof -
  have m: "list_ex has_meta [''data'', ''chunks'', ''a[1].bin'']"
    by (simp add: has_meta_def)
  have o: "\<not> prefix [''data'', ''chunks'', ''a[1].bin''] [''data'', ''a[1].bin'']"
    by simp
  have c: "Create staged_pattern [''data'', ''a[1].bin''] =
             (AList.update [''data'', ''a[1].bin''] (File []) staged_pattern, None)"
    by (simp add: Create_def lookup_def parent_error_def)
  have g: "no_glob (AList.update [''data'', ''a[1].bin''] (File []) staged_pattern)
             [''data'', ''chunks'', ''a[1].bin''] 0 = Inr []"
    by simp
  have f: "file_at staged_pattern ([''data'', ''chunks'', ''a[1].bin''] @ [''a[1].bin_0'']) =
             Some [1, 2, 3]"
    by (simp add: file_at_def lookup_def)
  have n: "file_at staged_pattern [''data'', ''chunks'', ''a[1].bin'', ''a[1].bin_1''] = None"
    by (simp add: file_at_def lookup_def)
  have t: "(0 :: int) < 3"
    by simp
  from mergeFileChunks_pattern_directory [OF m o c g t f] n
  show ?thesis
    by simp
qed

lemma mergeFileChunks_ok_content:
  assumes nm: "\<not> list_ex has_meta cd" and out: "\<not> prefix cd t"
    and ok: "mergeFileChunks G fs cd t n = (fs', None)"
    and ch: "\<forall>j. 0 \<le> j \<and> j < n \<longrightarrow> found_chunk G fs cd j = Some (chunks j)"
  shows "file_at fs' t = Some (concat (map chunks [0..n - 1]))"
proof -
  from ok obtain fs1 fs2 where
    cr: "Create fs t = (fs1, None)" and
    lp: "merge_loop G fs1 cd t 0 n = (fs2, None)" and
    f': "fs' = RemoveAll fs2 cd"
    by (auto simp: mergeFileChunks_def split: prod.splits option.splits)
  have u: "fs1 = AList.update t (File []) fs" "t \<noteq> []"
    using Create_ok [OF cr] by simp_all
  have t1: "lookup fs1 t = Some (File [])"
    using u by (simp add: lookup_update)
  have u1: "\<And>p. prefix cd p \<Longrightarrow> lookup fs1 p = lookup fs p"
    using u out by (auto simp: lookup_update)
  have f1: "\<forall>j. 0 \<le> j \<and> j < n \<longrightarrow> found_chunk G fs1 cd j = Some (chunks j)"
    using ch found_chunk_frame [OF nm u1] by simp
  have "lookup fs2 t = Some (File (concat (map chunks [0..n - 1])))"
  proof (cases "0 \<le> n")
    case False
    then have "merge_loop G fs1 cd t 0 n = (fs1, None)"
      by (subst merge_loop.simps) simp
    then show ?thesis using lp t1 False by simp
  next
    case True
    from merge_loop_run [OF nm out t1 True order_refl f1]
    obtain fs'' where r: "merge_loop G fs1 cd t 0 n = merge_loop G fs'' cd t n n"
      "lookup fs'' t = Some (File ([] @ concat (map chunks [0..n - 1])))"
      by blast
    have "merge_loop G fs'' cd t n n = (fs'', None)"
      by (subst merge_loop.simps) simp
    then show ?thesis using r lp by simp
  qed
  then show ?thesis
    using f' u(2) out by (simp add: file_at_def lookup_RemoveAll)
qed

text \<open>
  C1. When the chunk is the declared last one, it has been written to its staging file and
  the merge succeeds, the destination is a file; if the checksum of its content equals the
  declared one, \<open>SaveFileChunk\<close> succeeds and leaves it in place; otherwise \<open>SaveFileChunk\<close>
  removes it, so that the destination does not exist, and returns \<open>IntegrityFailed\<close> with
  the declared and the computed checksum. The content is the data of the chunks \<open>0\<close> to the
  total minus one in ascending order (for a staging path without pattern characters).
\<close>

theorem SaveFileChunk_last_chunk_verifies_md5:
  assumes "ChunkIndex ci = i64 (TotalChunk ci - 1)"
    and "SaveFileChunk_persist fs sp ci file = (fs3, None)"
    and "mergeFileChunks glob_meta fs3 (sp @ [''chunks'', FileName ci]) (sp @ [FileName ci])
           (TotalChunk ci) = (fs4, None)"
  shows "\<exists>merged. file_at fs4 (sp @ [FileName ci]) = Some merged \<and>
           (if md5hex merged = ci_MD5 ci
            then SaveFileChunk md5hex glob_meta fs sp ci file = (fs4, None)
            else SaveFileChunk md5hex glob_meta fs sp ci file =
                   (Remove fs4 (sp @ [FileName ci]),
                    Some (IntegrityFailed (ci_MD5 ci) (md5hex merged))) \<and>
                 lookup (Remove fs4 (sp @ [FileName ci])) (sp @ [FileName ci]) = None) \<and>
           (\<not> list_ex has_meta (sp @ [''chunks'', FileName ci]) \<and>
            (\<forall>j. 0 \<le> j \<and> j < TotalChunk ci \<longrightarrow>
                 found_chunk glob_meta fs3 (sp @ [''chunks'', FileName ci]) j = Some (chunks j))
            \<longrightarrow> merged = concat (map chunks [0..TotalChunk ci - 1]))"
proof -
  let ?dest = "sp @ [FileName ci]"
  have cd: "chunk_dir sp ci = sp @ [''chunks'', FileName ci]"
    by (simp add: chunk_dir_def)
  have out: "\<not> prefix (sp @ [''chunks'', FileName ci]) ?dest"
    using dest_outside_chunk_dir [of sp ci] unfolding cd .
  obtain merged where m: "file_at fs4 ?dest = Some merged"
    using mergeFileChunks_ok_target [OF assms(3) out] by blast
  then have l: "lookup fs4 ?dest = Some (File merged)"
    by (auto simp: file_at_def split: option.splits node.splits)
  have md5: "calculateFileMD5 md5hex fs4 ?dest = Inr (md5hex merged)"
    using l by (simp add: calculateFileMD5_def Open_def read_all_def)
  have gone: "lookup (Remove fs4 ?dest) ?dest = None"
    using l by (simp add: Remove_def lookup_delete)
  have res: "if md5hex merged = ci_MD5 ci
            then SaveFileChunk md5hex glob_meta fs sp ci file = (fs4, None)
            else SaveFileChunk md5hex glob_meta fs sp ci file =
                   (Remove fs4 ?dest, Some (IntegrityFailed (ci_MD5 ci) (md5hex merged))) \<and>
                 lookup (Remove fs4 ?dest) ?dest = None"
    using assms md5 gone by (auto simp: SaveFileChunk_def cd)
  have content: "merged = concat (map chunks [0..TotalChunk ci - 1])"
    if "\<not> list_ex has_meta (sp @ [''chunks'', FileName ci])"
      and "\<forall>j. 0 \<le> j \<and> j < TotalChunk ci \<longrightarrow>
             found_chunk glob_meta fs3 (sp @ [''chunks'', FileName ci]) j = Some (chunks j)"
    using mergeFileChunks_ok_content [OF that(1) out assms(3) that(2)] m by simp
  show ?thesis
    using m res content by blast
qed

lemma staged_one_persist:
  "SaveFileChunk_persist staged_one [''data''] (last_chunk d)
     \<lparr>Filename = ''blob'', fh_Open = Inr [4, 5]\<rparr> = (staged_two, None)"
  by (simp add: SaveFileChunk_persist_def chunk_dir_def chunk_path_def MkdirAll.simps Create_def
      lookup_def parent_error_def append_file_def show_int_def show_nat.simps digit_char_def)

lemma staged_two_merge:
  "mergeFileChunks no_glob staged_two ([''data''] @ [''chunks'', ''a.bin'']) ([''data''] @ [''a.bin'']) 2 =
     (merged_disk, None)"
  by (simp add: mergeFileChunks_def Create_def lookup_def parent_error_def merge_loop.simps
      Glob_chunk_def has_meta_def dir_names_def match_star_def show_int_def show_nat.simps
      digit_char_def Open_def read_all_def append_file_def RemoveAll_def)

theorem SaveFileChunk_last_chunk_verifies_md5_witness:
  "SaveFileChunk toy_md5 no_glob staged_one [''data'']
     (last_chunk ''7cfdd07889b3295d6a550914ab35e068'')
     \<lparr>Filename = ''blob'', fh_Open = Inr [4, 5]\<rparr> = (merged_disk, None) \<and>
   SaveFileChunk toy_md5 no_glob staged_one [''data'']
     (last_chunk ''00000000000000000000000000000000'')
     \<lparr>Filename = ''blob'', fh_Open = Inr [4, 5]\<rparr> =
     ([([''data''], Dir), ([''data'', ''chunks''], Dir)],
      Some (IntegrityFailed ''00000000000000000000000000000000''
              ''7cfdd07889b3295d6a550914ab35e068'')) \<and>
   file_at merged_disk [''data'', ''a.bin''] = Some ([1, 2, 3] @ [4, 5])"
proof -
  have l: "\<And>d. ChunkIndex (last_chunk d) = i64 (TotalChunk (last_chunk d) - 1)"
    by (simp add: i64_def)
  have m: "\<And>d. mergeFileChunks no_glob staged_two ([''data''] @ [''chunks'', FileName (last_chunk d)])
             ([''data''] @ [FileName (last_chunk d)]) (TotalChunk (last_chunk d)) = (merged_disk, None)"
    using staged_two_merge by simp
  have f: "file_at merged_disk [''data'', ''a.bin''] = Some [1, 2, 3, 4, 5]"
    by (simp add: file_at_def lookup_def)
  have r: "Remove merged_disk [''data'', ''a.bin''] = [([''data''], Dir), ([''data'', ''chunks''], Dir)]"
    by (simp add: Remove_def lookup_def)
  show ?thesis
    using SaveFileChunk_last_chunk_verifies_md5
            [OF l staged_one_persist m, where md5hex = toy_md5 and d1 = "''7cfdd07889b3295d6a550914ab35e068''"]
          SaveFileChunk_last_chunk_verifies_md5
            [OF l staged_one_persist m, where md5hex = toy_md5 and d1 = "''00000000000000000000000000000000''"]
          f r
    by simp
qed

end
